theory Spec2Isabelle
  imports Main "HOL-Library.Monad_Syntax" "HOL-Library.Sublist" "HOL-Library.Multiset"
begin

section \<open>Go values\<close>

text \<open>
  The provider passes schema data and decoded JSON around as \<^verbatim>\<open>interface{}\<close>.
  \<open>gval\<close> holds the dynamic types that occur: the nil interface, \<^verbatim>\<open>bool\<close>,
  \<^verbatim>\<open>string\<close>, \<^verbatim>\<open>[]string\<close>, \<^verbatim>\<open>[]interface{}\<close> and
  \<^verbatim>\<open>map[string]interface{}\<close>. A map is an association list: the order of the list
  is the order in which a \<^verbatim>\<open>range\<close> over the map happens to visit the keys (Go leaves
  it unspecified), so a statement about every association list covers every iteration order.
\<close>

datatype gval =
    GNil
  | GBool bool
  | GString string
  | GStrings "string list"
  | GList "gval list"
  | GMap "(string \<times> gval) list"

type_synonym gmap = "(string \<times> gval) list"

text \<open>
  A failed type assertion \<^verbatim>\<open>x.(T)\<close> panics. None of the functions below recovers, so
  a panic ends the call: the result \<open>None\<close> stands for it.
\<close>

fun assertString :: "gval \<Rightarrow> string option" where
  "assertString (GString s) = Some s"
| "assertString _ = None"

fun assertList :: "gval \<Rightarrow> gval list option" where
  "assertList (GList vs) = Some vs"
| "assertList _ = None"

fun assertMap :: "gval \<Rightarrow> gmap option" where
  "assertMap (GMap m) = Some m"
| "assertMap _ = None"

text \<open>\<^verbatim>\<open>m[k]\<close>: the nil interface when the key is absent.\<close>

definition index :: "gmap \<Rightarrow> string \<Rightarrow> gval" where
  "index m k = (case map_of m k of None \<Rightarrow> GNil | Some v \<Rightarrow> v)"

text \<open>
  \<^verbatim>\<open>for _, x := range xs { body }\<close> over a slice or the entries of a map, for a body
  with no \<^verbatim>\<open>break\<close> or \<^verbatim>\<open>continue\<close>; a panic in the body ends the loop.
\<close>

primrec forEach :: "'a list \<Rightarrow> ('a \<Rightarrow> 's \<Rightarrow> 's option) \<Rightarrow> 's \<Rightarrow> 's option" where
  "forEach [] body s = Some s"
| "forEach (x # xs) body s = Option.bind (body x s) (forEach xs body)"

section \<open>Access group conditions\<close>

text \<open>
  The variant structs of the API client library that \<^verbatim>\<open>BuildAccessGroupCondition\<close>
  fills in. The arguments are the struct's fields in the order of their declaration in the
  struct literals of the source.
\<close>

datatype variant =
    AccessGroupEveryone
  | AccessGroupAnyValidServiceToken
  | AccessGroupCertificate
  | AccessGroupCertificateCommonName string
  | AccessGroupAuthMethod string
  | AccessGroupGSuite string string
  | AccessGroupGitHub string string string
  | AccessGroupAzure string string
  | AccessGroupOkta string string
  | AccessGroupSAML string string string
  | AccessGroupExternalEvaluation string string
  | AccessGroupEmail string
  | AccessGroupEmailDomain string
  | AccessGroupIP string
  | AccessGroupServiceToken string
  | AccessGroupAccessGroup string
  | AccessGroupGeo string
  | AccessGroupLoginMethod string
  | AccessGroupDevicePosture string

text \<open>The \<^verbatim>\<open>switch accessGroupType\<close> of the final \<^verbatim>\<open>else\<close> branch; it has no default case.\<close>

definition genericCase :: "string \<Rightarrow> gval \<Rightarrow> variant list \<Rightarrow> variant list option" where
  "genericCase accessGroupType val grp =
    (if accessGroupType = ''email'' then
       do { s \<leftarrow> assertString val; Some (grp @ [AccessGroupEmail s]) }
     else if accessGroupType = ''email_domain'' then
       do { s \<leftarrow> assertString val; Some (grp @ [AccessGroupEmailDomain s]) }
     else if accessGroupType = ''ip'' then
       do { s \<leftarrow> assertString val; Some (grp @ [AccessGroupIP s]) }
     else if accessGroupType = ''service_token'' then
       do { s \<leftarrow> assertString val; Some (grp @ [AccessGroupServiceToken s]) }
     else if accessGroupType = ''group'' then
       do { s \<leftarrow> assertString val; Some (grp @ [AccessGroupAccessGroup s]) }
     else if accessGroupType = ''geo'' then
       do { s \<leftarrow> assertString val; Some (grp @ [AccessGroupGeo s]) }
     else if accessGroupType = ''login_method'' then
       do { s \<leftarrow> assertString val; Some (grp @ [AccessGroupLoginMethod s]) }
     else if accessGroupType = ''device_posture'' then
       do { s \<leftarrow> assertString val; Some (grp @ [AccessGroupDevicePosture s]) }
     else Some grp)"

text \<open>The body of the loop over \<^verbatim>\<open>options\<close>: one key of the block and its value.\<close>

definition buildEntry :: "string \<Rightarrow> gval \<Rightarrow> variant list \<Rightarrow> variant list option" where
  "buildEntry accessGroupType vals grp =
    (if accessGroupType = ''everyone'' then
       Some (if vals = GBool True then grp @ [AccessGroupEveryone] else grp)
     else if accessGroupType = ''any_valid_service_token'' then
       Some (if vals = GBool True then grp @ [AccessGroupAnyValidServiceToken] else grp)
     else if accessGroupType = ''certificate'' then
       Some (if vals = GBool True then grp @ [AccessGroupCertificate] else grp)
     else if accessGroupType = ''common_name'' then
       (if vals \<noteq> GString '''' then
          do { s \<leftarrow> assertString vals; Some (grp @ [AccessGroupCertificateCommonName s]) }
        else Some grp)
     else if accessGroupType = ''auth_method'' then
       (if vals \<noteq> GString '''' then
          do { s \<leftarrow> assertString vals; Some (grp @ [AccessGroupAuthMethod s]) }
        else Some grp)
     else if accessGroupType = ''gsuite'' then
       do { vs \<leftarrow> assertList vals;
            forEach vs (\<lambda>v grp. do {
              gsuiteCfg \<leftarrow> assertMap v;
              emails \<leftarrow> assertList (index gsuiteCfg ''email'');
              forEach emails (\<lambda>email grp. do {
                e \<leftarrow> assertString email;
                i \<leftarrow> assertString (index gsuiteCfg ''identity_provider_id'');
                Some (grp @ [AccessGroupGSuite e i]) }) grp }) grp }
     else if accessGroupType = ''github'' then
       do { vs \<leftarrow> assertList vals;
            forEach vs (\<lambda>v grp. do {
              githubCfg \<leftarrow> assertMap v;
              teams \<leftarrow> assertList (index githubCfg ''teams'');
              if length teams > 0 then
                forEach teams (\<lambda>team grp. do {
                  n \<leftarrow> assertString (index githubCfg ''name'');
                  t \<leftarrow> assertString team;
                  i \<leftarrow> assertString (index githubCfg ''identity_provider_id'');
                  Some (grp @ [AccessGroupGitHub n t i]) }) grp
              else do {
                n \<leftarrow> assertString (index githubCfg ''name'');
                i \<leftarrow> assertString (index githubCfg ''identity_provider_id'');
                Some (grp @ [AccessGroupGitHub n '''' i]) } }) grp }
     else if accessGroupType = ''azure'' then
       do { vs \<leftarrow> assertList vals;
            forEach vs (\<lambda>v grp. do {
              azureCfg \<leftarrow> assertMap v;
              ids \<leftarrow> assertList (index azureCfg ''id'');
              forEach ids (\<lambda>azid grp. do {
                d \<leftarrow> assertString azid;
                i \<leftarrow> assertString (index azureCfg ''identity_provider_id'');
                Some (grp @ [AccessGroupAzure d i]) }) grp }) grp }
     else if accessGroupType = ''okta'' then
       do { vs \<leftarrow> assertList vals;
            forEach vs (\<lambda>v grp. do {
              oktaCfg \<leftarrow> assertMap v;
              names \<leftarrow> assertList (index oktaCfg ''name'');
              forEach names (\<lambda>name grp. do {
                n \<leftarrow> assertString name;
                i \<leftarrow> assertString (index oktaCfg ''identity_provider_id'');
                Some (grp @ [AccessGroupOkta n i]) }) grp }) grp }
     else if accessGroupType = ''saml'' then
       do { vs \<leftarrow> assertList vals;
            forEach vs (\<lambda>v grp. do {
              samlCfg \<leftarrow> assertMap v;
              n \<leftarrow> assertString (index samlCfg ''attribute_name'');
              a \<leftarrow> assertString (index samlCfg ''attribute_value'');
              i \<leftarrow> assertString (index samlCfg ''identity_provider_id'');
              Some (grp @ [AccessGroupSAML n a i]) }) grp }
     else if accessGroupType = ''external_evaluation'' then
       do { vs \<leftarrow> assertList vals;
            forEach vs (\<lambda>v grp. do {
              eeCfg \<leftarrow> assertMap v;
              e \<leftarrow> assertString (index eeCfg ''evaluate_url'');
              k \<leftarrow> assertString (index eeCfg ''keys_url'');
              Some (grp @ [AccessGroupExternalEvaluation e k]) }) grp }
     else
       do { vs \<leftarrow> assertList vals;
            forEach vs (genericCase accessGroupType) grp })"

text \<open>
  \<^verbatim>\<open>BuildAccessGroupCondition\<close>. Its Go result type is \<^verbatim>\<open>[]interface{}\<close> alone:
  there is no error result, so \<open>None\<close> (the panic) is the only way it fails.
\<close>

definition BuildAccessGroupCondition :: "gmap \<Rightarrow> variant list option" where
  "BuildAccessGroupCondition options =
     forEach options (\<lambda>(accessGroupType, vals). buildEntry accessGroupType vals) []"


text \<open>The kinds handled by the final \<^verbatim>\<open>else\<close> branch, and the struct each one fills.\<close>

definition genericKinds :: "string list" where
  "genericKinds = [''email'', ''email_domain'', ''ip'', ''service_token'', ''group'', ''geo'',
     ''login_method'', ''device_posture'']"

definition genericVariant :: "string \<Rightarrow> string \<Rightarrow> variant" where
  "genericVariant k s =
    (if k = ''email'' then AccessGroupEmail s
     else if k = ''email_domain'' then AccessGroupEmailDomain s
     else if k = ''ip'' then AccessGroupIP s
     else if k = ''service_token'' then AccessGroupServiceToken s
     else if k = ''group'' then AccessGroupAccessGroup s
     else if k = ''geo'' then AccessGroupGeo s
     else if k = ''login_method'' then AccessGroupLoginMethod s
     else AccessGroupDevicePosture s)"

text \<open>A loop body that only appends to the slice it is given.\<close>

definition appending :: "('a \<Rightarrow> 'b list \<Rightarrow> 'b list option) \<Rightarrow> bool" where
  "appending body = (\<forall>x s. body x s = map_option ((@) s) (body x []))"

section \<open>TransformAccessGroupForSchema\<close>

text \<open>The local variables of \<^verbatim>\<open>TransformAccessGroupForSchema\<close>, in the order of their declaration.\<close>

record accumulators =
  data :: "gmap list"
  emails :: "string list"
  emailDomains :: "string list"
  ips :: "string list"
  serviceTokens :: "string list"
  groups :: "string list"
  commonName :: string
  authMethod :: string
  geos :: "string list"
  loginMethod :: "string list"
  oktaID :: string
  oktaGroups :: "string list"
  gsuiteID :: string
  gsuiteEmails :: "string list"
  githubName :: string
  githubTeams :: "string list"
  githubID :: string
  azureID :: string
  azureIDs :: "string list"
  samlAttrName :: string
  samlAttrValue :: string
  externalEvaluationURL :: string
  externalEvaluationKeysURL :: string
  devicePostureRuleIDs :: "string list"

definition initialAccumulators :: accumulators where
  "initialAccumulators = \<lparr> data = [], emails = [], emailDomains = [], ips = [],
     serviceTokens = [], groups = [], commonName = '''', authMethod = '''', geos = [],
     loginMethod = [], oktaID = '''', oktaGroups = [], gsuiteID = '''', gsuiteEmails = [],
     githubName = '''', githubTeams = [], githubID = '''', azureID = '''', azureIDs = [],
     samlAttrName = '''', samlAttrValue = '''', externalEvaluationURL = '''',
     externalEvaluationKeysURL = '''', devicePostureRuleIDs = [] \<rparr>"

text \<open>
  \<^verbatim>\<open>for _, x := range groupValue.(map[string]interface{}) { acc = append(acc, x.(string)) }\<close>,
  the loop of the list-valued kinds.
\<close>

definition appendStrings :: "gval \<Rightarrow> string list \<Rightarrow> string list option" where
  "appendStrings groupValue acc =
     do { m \<leftarrow> assertMap groupValue;
          forEach m (\<lambda>(_, x) acc. do { s \<leftarrow> assertString x; Some (acc @ [s]) }) acc }"

text \<open>
  \<^verbatim>\<open>for _, x := range groupValue.(map[string]interface{}) { cur = x.(string) }\<close>,
  the loop of \<^verbatim>\<open>common_name\<close> and \<^verbatim>\<open>auth_method\<close>.
\<close>

definition assignString :: "gval \<Rightarrow> string \<Rightarrow> string option" where
  "assignString groupValue cur =
     do { m \<leftarrow> assertMap groupValue;
          forEach m (\<lambda>(_, x) cur. assertString x) cur }"

text \<open>The \<^verbatim>\<open>switch groupKey\<close>: one key of a variant and its value.\<close>

definition transformKey :: "string \<Rightarrow> gval \<Rightarrow> accumulators \<Rightarrow> accumulators option" where
  "transformKey groupKey groupValue a =
    (if groupKey = ''everyone'' \<or> groupKey = ''any_valid_service_token''
        \<or> groupKey = ''certificate'' then
       Some (a\<lparr>data := data a @ [[(groupKey, GBool True)]]\<rparr>)
     else if groupKey = ''email'' then
       do { xs \<leftarrow> appendStrings groupValue (emails a); Some (a\<lparr>emails := xs\<rparr>) }
     else if groupKey = ''email_domain'' then
       do { xs \<leftarrow> appendStrings groupValue (emailDomains a); Some (a\<lparr>emailDomains := xs\<rparr>) }
     else if groupKey = ''ip'' then
       do { xs \<leftarrow> appendStrings groupValue (ips a); Some (a\<lparr>ips := xs\<rparr>) }
     else if groupKey = ''service_token'' then
       do { xs \<leftarrow> appendStrings groupValue (serviceTokens a); Some (a\<lparr>serviceTokens := xs\<rparr>) }
     else if groupKey = ''common_name'' then
       do { x \<leftarrow> assignString groupValue (commonName a); Some (a\<lparr>commonName := x\<rparr>) }
     else if groupKey = ''auth_method'' then
       do { x \<leftarrow> assignString groupValue (authMethod a); Some (a\<lparr>authMethod := x\<rparr>) }
     else if groupKey = ''geo'' then
       do { xs \<leftarrow> appendStrings groupValue (geos a); Some (a\<lparr>geos := xs\<rparr>) }
     else if groupKey = ''login_method'' then
       do { xs \<leftarrow> appendStrings groupValue (loginMethod a); Some (a\<lparr>loginMethod := xs\<rparr>) }
     else if groupKey = ''okta'' then
       do { oktaCfg \<leftarrow> assertMap groupValue;
            i \<leftarrow> assertString (index oktaCfg ''identity_provider_id'');
            n \<leftarrow> assertString (index oktaCfg ''name'');
            Some (a\<lparr>oktaID := i, oktaGroups := oktaGroups a @ [n]\<rparr>) }
     else if groupKey = ''gsuite'' then
       do { gsuiteCfg \<leftarrow> assertMap groupValue;
            i \<leftarrow> assertString (index gsuiteCfg ''identity_provider_id'');
            e \<leftarrow> assertString (index gsuiteCfg ''email'');
            Some (a\<lparr>gsuiteID := i, gsuiteEmails := gsuiteEmails a @ [e]\<rparr>) }
     else if groupKey = ''github-organization'' then
       do { githubCfg \<leftarrow> assertMap groupValue;
            i \<leftarrow> assertString (index githubCfg ''identity_provider_id'');
            n \<leftarrow> assertString (index githubCfg ''name'');
            case map_of githubCfg ''team'' of
              None \<Rightarrow> Some (a\<lparr>githubID := i, githubName := n\<rparr>)
            | Some v \<Rightarrow>
                do { t \<leftarrow> assertString v;
                     Some (a\<lparr>githubID := i, githubName := n,
                             githubTeams := githubTeams a @ [t]\<rparr>) } }
     else if groupKey = ''azureAD'' then
       do { azureCfg \<leftarrow> assertMap groupValue;
            i \<leftarrow> assertString (index azureCfg ''identity_provider_id'');
            d \<leftarrow> assertString (index azureCfg ''id'');
            Some (a\<lparr>azureID := i, azureIDs := azureIDs a @ [d]\<rparr>) }
     else if groupKey = ''saml'' then
       do { samlCfg \<leftarrow> assertMap groupValue;
            n \<leftarrow> assertString (index samlCfg ''attribute_name'');
            v \<leftarrow> assertString (index samlCfg ''attribute_value'');
            Some (a\<lparr>samlAttrName := n, samlAttrValue := v\<rparr>) }
     else if groupKey = ''external_evaluation'' then
       do { eeCfg \<leftarrow> assertMap groupValue;
            e \<leftarrow> assertString (index eeCfg ''evaluate_url'');
            k \<leftarrow> assertString (index eeCfg ''keys_url'');
            Some (a\<lparr>externalEvaluationURL := e, externalEvaluationKeysURL := k\<rparr>) }
     else if groupKey = ''group'' then
       do { xs \<leftarrow> appendStrings groupValue (groups a); Some (a\<lparr>groups := xs\<rparr>) }
     else if groupKey = ''device_posture'' then
       do { xs \<leftarrow> appendStrings groupValue (devicePostureRuleIDs a);
            Some (a\<lparr>devicePostureRuleIDs := xs\<rparr>) }
     else Some a)"

text \<open>The scan of the variant list: the two nested \<^verbatim>\<open>range\<close> loops.\<close>

definition scanAccessGroup :: "gval list \<Rightarrow> accumulators \<Rightarrow> accumulators option" where
  "scanAccessGroup accessGroup a =
     forEach accessGroup (\<lambda>grp a. do {
       m \<leftarrow> assertMap grp;
       forEach m (\<lambda>(groupKey, groupValue). transformKey groupKey groupValue) a }) a"

text \<open>
  The sixteen \<^verbatim>\<open>if\<close> statements after the scan, each appending at most one
  single-key map to \<^verbatim>\<open>data\<close>, in the order of the source.
\<close>

definition postPass :: "accumulators \<Rightarrow> gmap list" where
  "postPass a =
     (if length (emails a) > 0 then [[(''email'', GStrings (emails a))]] else [])
   @ (if length (emailDomains a) > 0 then [[(''email_domain'', GStrings (emailDomains a))]] else [])
   @ (if length (ips a) > 0 then [[(''ip'', GStrings (ips a))]] else [])
   @ (if length (serviceTokens a) > 0
      then [[(''service_token'', GStrings (serviceTokens a))]] else [])
   @ (if commonName a \<noteq> '''' then [[(''common_name'', GString (commonName a))]] else [])
   @ (if authMethod a \<noteq> '''' then [[(''auth_method'', GString (authMethod a))]] else [])
   @ (if length (geos a) > 0 then [[(''geo'', GStrings (geos a))]] else [])
   @ (if length (loginMethod a) > 0 then [[(''login_method'', GStrings (loginMethod a))]] else [])
   @ (if length (oktaGroups a) > 0 \<and> oktaID a \<noteq> '''' then
        [[(''okta'', GList [GMap [(''identity_provider_id'', GString (oktaID a)),
                                  (''name'', GStrings (oktaGroups a))]])]] else [])
   @ (if length (gsuiteEmails a) > 0 \<and> gsuiteID a \<noteq> '''' then
        [[(''gsuite'', GList [GMap [(''identity_provider_id'', GString (gsuiteID a)),
                                    (''email'', GStrings (gsuiteEmails a))]])]] else [])
   @ (if githubID a \<noteq> '''' \<and> githubName a \<noteq> '''' then
        [[(''github'', GList [GMap [(''name'', GString (githubName a)),
                                    (''teams'', GStrings (githubTeams a)),
                                    (''identity_provider_id'', GString (githubID a))]])]] else [])
   @ (if length (azureIDs a) > 0 \<and> azureID a \<noteq> '''' then
        [[(''azure'', GList [GMap [(''identity_provider_id'', GString (azureID a)),
                                   (''id'', GStrings (azureIDs a))]])]] else [])
   @ (if samlAttrName a \<noteq> '''' \<and> samlAttrValue a \<noteq> '''' then
        [[(''saml'', GList [GMap [(''attribute_name'', GString (samlAttrName a)),
                                  (''attribute_value'', GString (samlAttrValue a))]])]] else [])
   @ (if externalEvaluationURL a \<noteq> '''' \<and> externalEvaluationKeysURL a \<noteq> '''' then
        [[(''external_evaluation'',
           GList [GMap [(''evaluate_url'', GString (externalEvaluationURL a)),
                        (''keys_url'', GString (externalEvaluationKeysURL a))]])]] else [])
   @ (if length (groups a) > 0 then [[(''group'', GStrings (groups a))]] else [])
   @ (if length (devicePostureRuleIDs a) > 0
      then [[(''device_posture'', GStrings (devicePostureRuleIDs a))]] else [])"

definition TransformAccessGroupForSchema :: "gval list \<Rightarrow> gmap list option" where
  "TransformAccessGroupForSchema accessGroup =
     do { a \<leftarrow> scanAccessGroup accessGroup initialAccumulators;
          Some (data a @ postPass a) }"

text \<open>
  The keys of the single-key maps of an output, in order; the three kinds the scan writes
  to \<^verbatim>\<open>data\<close> at once; the keys of the post-pass in the order of its
  \<^verbatim>\<open>if\<close> statements; and the keys the scan meets, in the order it meets them.
\<close>

definition keysOf :: "gmap list \<Rightarrow> string list" where
  "keysOf out = concat (map (map fst) out)"

definition flagKinds :: "string list" where
  "flagKinds = [''everyone'', ''any_valid_service_token'', ''certificate'']"

definition keyOrder :: "string list" where
  "keyOrder = [''email'', ''email_domain'', ''ip'', ''service_token'', ''common_name'',
     ''auth_method'', ''geo'', ''login_method'', ''okta'', ''gsuite'', ''github'', ''azure'',
     ''saml'', ''external_evaluation'', ''group'', ''device_posture'']"

fun entriesOf :: "gval \<Rightarrow> gmap" where
  "entriesOf (GMap m) = m"
| "entriesOf _ = []"

definition inputKeys :: "gval list \<Rightarrow> string list" where
  "inputKeys accessGroup = concat (map (map fst \<circ> entriesOf) accessGroup)"

text \<open>
  All the string values found under key \<open>k\<close> of the variants, in the order of the input:
  the values the list-valued kind \<open>k\<close> matches.
\<close>

fun stringsOf :: "gval \<Rightarrow> string list" where
  "stringsOf (GMap m) = concat (map (\<lambda>(_, x). case x of GString s \<Rightarrow> [s] | _ \<Rightarrow> []) m)"
| "stringsOf _ = []"

definition matchedValues :: "string \<Rightarrow> gval list \<Rightarrow> string list" where
  "matchedValues k accessGroup =
     concat (map (\<lambda>grp. concat (map (\<lambda>(k', v). if k' = k then stringsOf v else [])
                                      (entriesOf grp))) accessGroup)"

text \<open>
  The guard of each \<^verbatim>\<open>if\<close> statement of the post-pass, by the key it emits.
\<close>

definition emitCondition :: "string \<Rightarrow> accumulators \<Rightarrow> bool" where
  "emitCondition k a =
    (if k = ''email'' then emails a \<noteq> []
     else if k = ''email_domain'' then emailDomains a \<noteq> []
     else if k = ''ip'' then ips a \<noteq> []
     else if k = ''service_token'' then serviceTokens a \<noteq> []
     else if k = ''common_name'' then commonName a \<noteq> ''''
     else if k = ''auth_method'' then authMethod a \<noteq> ''''
     else if k = ''geo'' then geos a \<noteq> []
     else if k = ''login_method'' then loginMethod a \<noteq> []
     else if k = ''okta'' then oktaGroups a \<noteq> [] \<and> oktaID a \<noteq> ''''
     else if k = ''gsuite'' then gsuiteEmails a \<noteq> [] \<and> gsuiteID a \<noteq> ''''
     else if k = ''github'' then githubID a \<noteq> '''' \<and> githubName a \<noteq> ''''
     else if k = ''azure'' then azureIDs a \<noteq> [] \<and> azureID a \<noteq> ''''
     else if k = ''saml'' then samlAttrName a \<noteq> '''' \<and> samlAttrValue a \<noteq> ''''
     else if k = ''external_evaluation'' then
       externalEvaluationURL a \<noteq> '''' \<and> externalEvaluationKeysURL a \<noteq> ''''
     else if k = ''group'' then groups a \<noteq> []
     else if k = ''device_posture'' then devicePostureRuleIDs a \<noteq> []
     else False)"

section \<open>From the variant structs to the API's JSON\<close>

text \<open>
  Modelled from the spec: the variant structs and their JSON field tags are declared in the
  API client library, which is not part of this repository. Between
  \<^verbatim>\<open>BuildAccessGroupCondition\<close> and \<^verbatim>\<open>TransformAccessGroupForSchema\<close> a
  variant is encoded as JSON, stored by the API and decoded again into
  \<^verbatim>\<open>map[string]interface{}\<close>. \<open>toWire\<close> is that object: the outer key is the
  one \<^verbatim>\<open>TransformAccessGroupForSchema\<close> switches on, the inner keys are the tags
  written in the struct literals of \<^verbatim>\<open>BuildAccessGroupCondition\<close>
  (\<^verbatim>\<open>team\<close> is \<^verbatim>\<open>omitempty\<close>), and the API is taken to return what it was sent.
\<close>

fun toWire :: "variant \<Rightarrow> gval" where
  "toWire AccessGroupEveryone = GMap [(''everyone'', GMap [])]"
| "toWire AccessGroupAnyValidServiceToken = GMap [(''any_valid_service_token'', GMap [])]"
| "toWire AccessGroupCertificate = GMap [(''certificate'', GMap [])]"
| "toWire (AccessGroupCertificateCommonName s) =
     GMap [(''common_name'', GMap [(''common_name'', GString s)])]"
| "toWire (AccessGroupAuthMethod s) =
     GMap [(''auth_method'', GMap [(''auth_method'', GString s)])]"
| "toWire (AccessGroupGSuite e i) =
     GMap [(''gsuite'', GMap [(''email'', GString e), (''identity_provider_id'', GString i)])]"
| "toWire (AccessGroupGitHub n t i) =
     GMap [(''github-organization'',
            GMap ([(''name'', GString n)] @ (if t = '''' then [] else [(''team'', GString t)])
                  @ [(''identity_provider_id'', GString i)]))]"
| "toWire (AccessGroupAzure d i) =
     GMap [(''azureAD'', GMap [(''id'', GString d), (''identity_provider_id'', GString i)])]"
| "toWire (AccessGroupOkta n i) =
     GMap [(''okta'', GMap [(''name'', GString n), (''identity_provider_id'', GString i)])]"
| "toWire (AccessGroupSAML n v i) =
     GMap [(''saml'', GMap [(''attribute_name'', GString n), (''attribute_value'', GString v),
                            (''identity_provider_id'', GString i)])]"
| "toWire (AccessGroupExternalEvaluation e k) =
     GMap [(''external_evaluation'',
            GMap [(''evaluate_url'', GString e), (''keys_url'', GString k)])]"
| "toWire (AccessGroupEmail s) = GMap [(''email'', GMap [(''email'', GString s)])]"
| "toWire (AccessGroupEmailDomain s) = GMap [(''email_domain'', GMap [(''domain'', GString s)])]"
| "toWire (AccessGroupIP s) = GMap [(''ip'', GMap [(''ip'', GString s)])]"
| "toWire (AccessGroupServiceToken s) =
     GMap [(''service_token'', GMap [(''token_id'', GString s)])]"
| "toWire (AccessGroupAccessGroup s) = GMap [(''group'', GMap [(''id'', GString s)])]"
| "toWire (AccessGroupGeo s) = GMap [(''geo'', GMap [(''country_code'', GString s)])]"
| "toWire (AccessGroupLoginMethod s) = GMap [(''login_method'', GMap [(''id'', GString s)])]"
| "toWire (AccessGroupDevicePosture s) =
     GMap [(''device_posture'', GMap [(''integration_uid'', GString s)])]"

text \<open>
  One block of the schema, built, sent through the API and transformed back.
\<close>

definition roundTrip :: "gmap \<Rightarrow> gmap list option" where
  "roundTrip options =
     do { conditions \<leftarrow> BuildAccessGroupCondition options;
          TransformAccessGroupForSchema (map toWire conditions) }"

text \<open>
  A schema value as the output side writes it: a list of strings is a \<^verbatim>\<open>[]string\<close>
  there and a \<^verbatim>\<open>[]interface{}\<close> of strings on the input side.
\<close>

definition asStrings :: "string list \<Rightarrow> gval" where
  "asStrings xs = GList (map GString xs)"

section \<open>The Access Group resource\<close>

record 'c AccessGroup =
  ID :: string
  Name :: string
  Include :: "'c list"
  Exclude :: "'c list"
  Require :: "'c list"

text \<open>
  The part of \<^verbatim>\<open>schema.ResourceData\<close> the resource reads and writes: the ID and
  the attributes \<^verbatim>\<open>name\<close>, \<^verbatim>\<open>require\<close>, \<^verbatim>\<open>exclude\<close> and \<^verbatim>\<open>include\<close>,
  the last three (\<open>requireBlocks\<close>, \<open>excludeBlocks\<close>, \<open>includeBlocks\<close>) lists of blocks;
  a block is a map, or nil.
\<close>

record ResourceData =
  Id :: string
  name :: string
  requireBlocks :: "gval list"
  excludeBlocks :: "gval list"
  includeBlocks :: "gval list"

definition appendConditionalAccessGroupFields ::
  "variant AccessGroup \<Rightarrow> ResourceData \<Rightarrow> variant AccessGroup option" where
  "appendConditionalAccessGroupFields grp d =
     do { grp \<leftarrow> forEach (excludeBlocks d) (\<lambda>val grp.
            if val \<noteq> GNil then
              do { m \<leftarrow> assertMap val; c \<leftarrow> BuildAccessGroupCondition m;
                   Some (grp\<lparr>Exclude := c\<rparr>) }
            else Some grp) grp;
          grp \<leftarrow> forEach (requireBlocks d) (\<lambda>val grp.
            if val \<noteq> GNil then
              do { m \<leftarrow> assertMap val; c \<leftarrow> BuildAccessGroupCondition m;
                   Some (grp\<lparr>Require := c\<rparr>) }
            else Some grp) grp;
          forEach (includeBlocks d) (\<lambda>val grp.
            if val \<noteq> GNil then
              do { m \<leftarrow> assertMap val; c \<leftarrow> BuildAccessGroupCondition m;
                   Some (grp\<lparr>Include := c\<rparr>) }
            else Some grp) grp }"

text \<open>The last non-nil block of a list of blocks, and a block the loops above accept.\<close>

definition lastBlock :: "gval list \<Rightarrow> gval option" where
  "lastBlock blocks =
     (case filter (\<lambda>b. b \<noteq> GNil) blocks of [] \<Rightarrow> None | b # bs \<Rightarrow> Some (last (b # bs)))"

definition buildBlock :: "gval \<Rightarrow> variant list option" where
  "buildBlock b = Option.bind (assertMap b) BuildAccessGroupCondition"

definition blockOK :: "gval \<Rightarrow> bool" where
  "blockOK b = (b = GNil \<or> buildBlock b \<noteq> None)"

text \<open>
  An error value is identified with its message; \<^verbatim>\<open>fmt.Errorf(format, args..., err)\<close>
  with a final \<^verbatim>\<open>%w\<close> keeps the format, the other arguments and the wrapped error.
  \<^verbatim>\<open>diag.FromErr(e)\<close> is identified with \<open>e\<close>, and nil diagnostics are \<open>None\<close>.
\<close>

datatype goError = Plain string | Errorf string "string list" string

text \<open>
  An error of a read call of the API client: the HTTP status of the response that caused
  it, and the text \<^verbatim>\<open>err.Error()\<close> returns. The error type is declared in the API
  client library, which builds the text from the response; the handler sees the error
  through \<^verbatim>\<open>err.Error()\<close> only.
\<close>

record apiError =
  StatusCode :: nat
  ErrorText :: string

fun strings_Contains :: "string \<Rightarrow> string \<Rightarrow> bool" where
  "strings_Contains [] substr = (substr = [])"
| "strings_Contains (c # s) substr = (prefix substr (c # s) \<or> strings_Contains s substr)"

datatype identifierType = AccountType | ZoneType

record AccessIdentifier =
  Type :: identifierType
  Value :: string

text \<open>
  What the read handler calls and does not define: \<^verbatim>\<open>initIdentifier\<close> (of this
  provider, outside the files at hand), the two read calls of the API client, and the error,
  if any, that \<^verbatim>\<open>d.Set\<close> reports for an attribute.
\<close>

record AccessEnv =
  initIdentifier :: "ResourceData \<Rightarrow> string + AccessIdentifier"
  clientAccessGroup :: "string \<Rightarrow> string \<Rightarrow> apiError + gval AccessGroup"
  clientZoneLevelAccessGroup :: "string \<Rightarrow> string \<Rightarrow> apiError + gval AccessGroup"
  setError :: "string \<Rightarrow> string option"

definition resourceCloudflareAccessGroupRead ::
  "AccessEnv \<Rightarrow> ResourceData \<Rightarrow> (goError option \<times> ResourceData) option" where
  "resourceCloudflareAccessGroupRead env d =
    (case initIdentifier env d of
       Inl err \<Rightarrow> Some (Some (Plain err), d)
     | Inr identifier \<Rightarrow>
        (case (if Type identifier = AccountType
               then clientAccessGroup env (Value identifier) (Id d)
               else clientZoneLevelAccessGroup env (Value identifier) (Id d)) of
           Inl err \<Rightarrow>
             if strings_Contains (ErrorText err) ''HTTP status 404''
             then Some (None, d\<lparr>Id := ''''\<rparr>)
             else Some (Some (Errorf ''error finding Access Group %q: %w'' [Id d]
                                (ErrorText err)), d)
         | Inr accessGroup \<Rightarrow>
             let d = (if setError env ''name'' = None then d\<lparr>name := Name accessGroup\<rparr> else d)
             in do {
               req \<leftarrow> TransformAccessGroupForSchema (Require accessGroup);
               case setError env ''require'' of
                 Some err \<Rightarrow> Some (Some (Errorf ''failed to set require attribute: %w'' [] err), d)
               | None \<Rightarrow> do {
                   let d = d\<lparr>requireBlocks := map GMap req\<rparr>;
                   exc \<leftarrow> TransformAccessGroupForSchema (Exclude accessGroup);
                   case setError env ''exclude'' of
                     Some err \<Rightarrow>
                       Some (Some (Errorf ''failed to set exclude attribute: %w'' [] err), d)
                   | None \<Rightarrow> do {
                       let d = d\<lparr>excludeBlocks := map GMap exc\<rparr>;
                       inc \<leftarrow> TransformAccessGroupForSchema (Include accessGroup);
                       case setError env ''include'' of
                         Some err \<Rightarrow>
                           Some (Some (Errorf ''failed to set include attribute: %w'' [] err), d)
                       | None \<Rightarrow> Some (None, d\<lparr>includeBlocks := map GMap inc\<rparr>) } } }))"

section \<open>The WAF rules data source\<close>

record WAFPackage =
  pkgID :: string

record WAFRule =
  ruleID :: string
  ruleDescription :: string
  rulePriority :: string
  ruleMode :: string
  ruleGroupID :: string
  ruleGroupName :: string
  ruleAllowedModes :: "string list"
  ruleDefaultMode :: string

text \<open>
  \<^verbatim>\<open>searchFilterWAFRules\<close>. A compiled regular expression is the predicate its
  \<^verbatim>\<open>Match\<close> method computes; the nil pointer is \<open>None\<close>.
\<close>

record searchFilterWAFRules =
  Description :: "(string \<Rightarrow> bool) option"
  Mode :: string
  GroupID :: string

definition ruleDetail :: "string \<Rightarrow> WAFRule \<Rightarrow> gmap" where
  "ruleDetail pkg rule =
     [(''id'', GString (ruleID rule)),
      (''description'', GString (ruleDescription rule)),
      (''priority'', GString (rulePriority rule)),
      (''mode'', GString (ruleMode rule)),
      (''group_id'', GString (ruleGroupID rule)),
      (''group_name'', GString (ruleGroupName rule)),
      (''package_id'', GString pkg),
      (''allowed_modes'', GStrings (ruleAllowedModes rule)),
      (''default_mode'', GString (ruleDefaultMode rule))]"

text \<open>
  The loop over the rules of one package. The state is \<^verbatim>\<open>ruleIds\<close>,
  \<^verbatim>\<open>ruleDetails\<close> and \<^verbatim>\<open>foundGroup\<close>; each \<^verbatim>\<open>continue\<close> is a
  recursive call on the rest with nothing appended.
\<close>

fun scanRules :: "searchFilterWAFRules \<Rightarrow> string \<Rightarrow> WAFRule list
    \<Rightarrow> string list \<times> gmap list \<times> bool \<Rightarrow> string list \<times> gmap list \<times> bool" where
  "scanRules flt pkg [] st = st"
| "scanRules flt pkg (rule # rest) (ruleIds, ruleDetails, foundGroup) =
    (if GroupID flt \<noteq> '''' \<and> GroupID flt \<noteq> ruleGroupID rule then
       scanRules flt pkg rest (ruleIds, ruleDetails, foundGroup)
     else
       let foundGroup = (if GroupID flt \<noteq> '''' then True else foundGroup) in
       if (case Description flt of None \<Rightarrow> False
           | Some re \<Rightarrow> \<not> re (ruleDescription rule)) then
         scanRules flt pkg rest (ruleIds, ruleDetails, foundGroup)
       else if Mode flt \<noteq> '''' \<and> Mode flt \<noteq> ruleMode rule then
         scanRules flt pkg rest (ruleIds, ruleDetails, foundGroup)
       else
         scanRules flt pkg rest
           (ruleIds @ [ruleID rule], ruleDetails @ [ruleDetail pkg rule], foundGroup))"

text \<open>
  What the data source calls and does not define: the two list calls of the API client,
  \<^verbatim>\<open>stringListChecksum\<close> (of this provider, outside the files at hand) and the error,
  if any, of \<^verbatim>\<open>d.Set("rules", ...)\<close>.
\<close>

record WAFEnv =
  ListWAFPackages :: "string \<Rightarrow> string + WAFPackage list"
  ListWAFRules :: "string \<Rightarrow> string \<Rightarrow> string + WAFRule list"
  stringListChecksum :: "string list \<Rightarrow> string"
  setRulesError :: "string option"

text \<open>
  The loop over the packages. Besides the state of the source it carries \<open>queried\<close>, the
  IDs of the packages whose rules have been asked of the API so far, in order; the function
  returns it with the result, an error or \<^verbatim>\<open>ruleIds\<close> and \<^verbatim>\<open>ruleDetails\<close>.
\<close>

fun scanPackages :: "WAFEnv \<Rightarrow> string \<Rightarrow> searchFilterWAFRules \<Rightarrow> WAFPackage list
    \<Rightarrow> string list \<times> string list \<times> gmap list
    \<Rightarrow> string list \<times> (string + string list \<times> gmap list)" where
  "scanPackages client zoneID flt [] (queried, ruleIds, ruleDetails) =
     (queried, Inr (ruleIds, ruleDetails))"
| "scanPackages client zoneID flt (pkg # rest) (queried, ruleIds, ruleDetails) =
    (case ListWAFRules client zoneID (pkgID pkg) of
       Inl err \<Rightarrow> (queried @ [pkgID pkg], Inl err)
     | Inr ruleList \<Rightarrow>
        (case scanRules flt (pkgID pkg) ruleList (ruleIds, ruleDetails, False) of
           (ruleIds, ruleDetails, foundGroup) \<Rightarrow>
             if foundGroup then (queried @ [pkgID pkg], Inr (ruleIds, ruleDetails))
             else scanPackages client zoneID flt rest
                    (queried @ [pkgID pkg], ruleIds, ruleDetails)))"

text \<open>
  The attributes of the data source: \<^verbatim>\<open>zone_id\<close>, \<^verbatim>\<open>package_id\<close>, the computed
  \<^verbatim>\<open>rules\<close> and the ID. The \<^verbatim>\<open>filter\<close> attribute enters as the result of
  \<^verbatim>\<open>expandFilterWAFRules\<close> on it, an error or the expanded filter.
\<close>

record WAFRulesData =
  zone_id :: string
  package_id :: string
  rules :: "gmap list"
  dataId :: string

definition dataSourceCloudflareWAFRulesRead ::
  "WAFEnv \<Rightarrow> string + searchFilterWAFRules \<Rightarrow> WAFRulesData
     \<Rightarrow> string list \<times> (goError + WAFRulesData)" where
  "dataSourceCloudflareWAFRulesRead client expanded d =
    (let zoneID = zone_id d in
     case expanded of
       Inl err \<Rightarrow> ([], Inl (Plain err))
     | Inr flt \<Rightarrow>
        (case (if package_id d = '''' then ListWAFPackages client zoneID
               else Inr [\<lparr>pkgID = package_id d\<rparr>]) of
           Inl err \<Rightarrow> ([], Inl (Plain err))
         | Inr pkgList \<Rightarrow>
            (case scanPackages client zoneID flt pkgList ([], [], []) of
               (queried, Inl err) \<Rightarrow> (queried, Inl (Plain err))
             | (queried, Inr (ruleIds, ruleDetails)) \<Rightarrow>
                (case setRulesError client of
                   Some err \<Rightarrow> (queried, Inl (Errorf ''error setting WAF rules: %w'' [] err))
                 | None \<Rightarrow>
                     (queried, Inr (d\<lparr>rules := ruleDetails,
                                       dataId := stringListChecksum client ruleIds\<rparr>))))))"

text \<open>
  The three filters as the specification words them: each passes when it is not set or when
  the rule matches it.
\<close>

definition passesFilters :: "searchFilterWAFRules \<Rightarrow> WAFRule \<Rightarrow> bool" where
  "passesFilters flt rule =
    ((case Description flt of None \<Rightarrow> True | Some re \<Rightarrow> re (ruleDescription rule))
     \<and> (Mode flt = '''' \<or> Mode flt = ruleMode rule)
     \<and> (GroupID flt = '''' \<or> GroupID flt = ruleGroupID rule))"

text \<open>The rules of a package as the API lists them; none when the call fails.\<close>

definition rulesOf :: "WAFEnv \<Rightarrow> string \<Rightarrow> string \<Rightarrow> WAFRule list" where
  "rulesOf client zoneID pkg =
     (case ListWAFRules client zoneID pkg of Inl _ \<Rightarrow> [] | Inr ruleList \<Rightarrow> ruleList)"

section \<open>Example inputs\<close>

text \<open>
  A zone with three packages. The rules of the second belong to group \<^verbatim>\<open>g1\<close>, as does
  the rule of the third; the filter asks for group \<^verbatim>\<open>g1\<close> and mode \<^verbatim>\<open>on\<close>.
\<close>

definition exampleRule :: "string \<Rightarrow> string \<Rightarrow> string \<Rightarrow> WAFRule" where
  "exampleRule i g m = \<lparr>ruleID = i, ruleDescription = ''rule'', rulePriority = ''1'',
     ruleMode = m, ruleGroupID = g, ruleGroupName = ''group'', ruleAllowedModes = [''on'', ''off''],
     ruleDefaultMode = ''on''\<rparr>"

definition exampleWAF :: WAFEnv where
  "exampleWAF = \<lparr>
     ListWAFPackages = (\<lambda>zone. Inr [\<lparr>pkgID = ''p1''\<rparr>, \<lparr>pkgID = ''p2''\<rparr>, \<lparr>pkgID = ''p3''\<rparr>]),
     ListWAFRules = (\<lambda>zone pkg.
       if pkg = ''p1'' then Inr [exampleRule ''r1'' ''g0'' ''on'']
       else if pkg = ''p2'' then Inr [exampleRule ''r2'' ''g1'' ''on'', exampleRule ''r3'' ''g1'' ''off'']
       else Inr [exampleRule ''r4'' ''g1'' ''on'']),
     stringListChecksum = concat,
     setRulesError = None\<rparr>"

definition exampleFilter :: searchFilterWAFRules where
  "exampleFilter = \<lparr>Description = None, Mode = ''on'', GroupID = ''g1''\<rparr>"

definition exampleData :: WAFRulesData where
  "exampleData = \<lparr>zone_id = ''z'', package_id = '''', rules = [], dataId = ''''\<rparr>"

text \<open>
  An account whose read call fails with the given error, and three errors: a 404 whose
  text has the form \<^verbatim>\<open>message (code)\<close>, a 404 whose text names the status, and a 400
  whose message quotes the text the handler looks for.
\<close>

definition exampleAccess :: "apiError \<Rightarrow> AccessEnv" where
  "exampleAccess err = \<lparr>
     initIdentifier = (\<lambda>d. Inr \<lparr>Type = AccountType, Value = ''account-1''\<rparr>),
     clientAccessGroup = (\<lambda>account i. Inl err),
     clientZoneLevelAccessGroup = (\<lambda>zone i. Inl err),
     setError = (\<lambda>attribute. None)\<rparr>"

definition notFound :: apiError where
  "notFound = \<lparr>StatusCode = 404, ErrorText = ''not found (1000)''\<rparr>"

definition notFoundWithStatusText :: apiError where
  "notFoundWithStatusText =
     \<lparr>StatusCode = 404, ErrorText = ''error from makeRequest: HTTP status 404: not found''\<rparr>"

definition badRequestQuotingText :: apiError where
  "badRequestQuotingText =
     \<lparr>StatusCode = 400, ErrorText = ''invalid name: HTTP status 404 (1001)''\<rparr>"

definition exampleResource :: ResourceData where
  "exampleResource = \<lparr>Id = ''group-1'', name = ''n'', requireBlocks = [], excludeBlocks = [],
     includeBlocks = []\<rparr>"

text \<open>The rules of a package that pass the filters.\<close>

definition passing :: "WAFEnv \<Rightarrow> string \<Rightarrow> searchFilterWAFRules \<Rightarrow> string \<Rightarrow> WAFRule list" where
  "passing client zoneID flt pkg = filter (passesFilters flt) (rulesOf client zoneID pkg)"

text \<open>The accumulator of a list-valued kind, by the key of the kind.\<close>

definition listAcc :: "string \<Rightarrow> accumulators \<Rightarrow> string list" where
  "listAcc k a =
    (if k = ''email'' then emails a
     else if k = ''email_domain'' then emailDomains a
     else if k = ''ip'' then ips a
     else if k = ''service_token'' then serviceTokens a
     else if k = ''group'' then groups a
     else if k = ''geo'' then geos a
     else if k = ''login_method'' then loginMethod a
     else if k = ''device_posture'' then devicePostureRuleIDs a
     else [])"

text \<open>
  A variant list as the API returns it: two emails around two \<^verbatim>\<open>everyone\<close>, a
  certificate, and an Okta group whose identity provider ID is empty.
\<close>

definition exampleConditions :: "gval list" where
  "exampleConditions = map toWire
     [AccessGroupEmail ''a@x.com'', AccessGroupEveryone, AccessGroupCertificate,
      AccessGroupEmail ''b@x.com'', AccessGroupEveryone, AccessGroupOkta ''g'' '''']"

section \<open>Properties of BuildAccessGroupCondition\<close>

lemma forEach_append:
  "forEach (xs @ ys) body s = Option.bind (forEach xs body s) (forEach ys body)"
  by (induction xs arbitrary: s) (auto split: Option.bind_splits)

lemma appendingI: "(\<And>x s. body x s = map_option ((@) s) (body x [])) \<Longrightarrow> appending body"
  unfolding appending_def by blast

lemma appendingD: "appending body \<Longrightarrow> body x s = map_option ((@) s) (body x [])"
  unfolding appending_def by blast

lemma forEach_appending:
  assumes "appending body"
  shows "forEach xs body s = map_option ((@) s) (forEach xs body [])"
proof (induction xs arbitrary: s)
  case Nil
  show ?case by simp
next
  case (Cons x xs)
  show ?case
  proof (cases "body x []")
    case None
    then show ?thesis using appendingD[OF assms, of x s] by simp
  next
    case (Some r)
    have step: "body x s = Some (s @ r)"
      using appendingD[OF assms, of x s] Some by simp
    show ?thesis
      using Some step Cons.IH[of "s @ r"] Cons.IH[of r]
      by (cases "forEach xs body []") auto
  qed
qed

lemma forEach_appending_sym:
  "appending body \<Longrightarrow> map_option ((@) s) (forEach xs body []) = forEach xs body s"
  using forEach_appending[of body xs s] by simp

lemma genericCase_appending: "appending (genericCase k)"
  by (rule appendingI) (auto simp: genericCase_def split: Option.bind_splits)

lemma genericCase_forEach_sym:
  "map_option ((@) s) (forEach xs (genericCase k) []) = forEach xs (genericCase k) s"
  by (rule forEach_appending_sym) (rule genericCase_appending)

lemma bind_map_option_push:
  "map_option f (Option.bind x g) = Option.bind x (\<lambda>y. map_option f (g y))"
  by (cases x) auto

lemma map_option_if_push:
  "map_option f (if c then a else b) = (if c then map_option f a else map_option f b)"
  by simp

text \<open>Every branch of the loop body only appends to \<^verbatim>\<open>group\<close>.\<close>

lemma buildEntry_appending: "buildEntry k v s = map_option ((@) s) (buildEntry k v [])"
  unfolding buildEntry_def
  by (simp add: bind_map_option_push forEach_appending_sym appending_def genericCase_forEach_sym
      map_option_if_push cong: Option.bind_cong if_cong)

lemma Build_append:
  assumes "BuildAccessGroupCondition pre = Some p" and "BuildAccessGroupCondition post = Some q"
  shows "BuildAccessGroupCondition (pre @ post) = Some (p @ q)"
proof -
  have app: "appending (\<lambda>(accessGroupType, vals). buildEntry accessGroupType vals)"
    by (rule appendingI) (simp add: buildEntry_appending[symmetric] split: prod.splits)
  show ?thesis
    using assms forEach_appending[OF app, of post p]
    by (simp add: BuildAccessGroupCondition_def forEach_append)
qed

lemma genericCase_string:
  "k \<in> set genericKinds \<Longrightarrow> genericCase k (GString x) s = Some (s @ [genericVariant k x])"
  unfolding genericKinds_def
  by (elim disjE | simp add: genericCase_def genericVariant_def)+

lemma forEach_genericCase:
  "k \<in> set genericKinds \<Longrightarrow>
   forEach (map GString xs) (genericCase k) s = Some (s @ map (genericVariant k) xs)"
  by (induction xs arbitrary: s) (simp_all add: genericCase_string)

lemma buildEntry_generic:
  "k \<in> set genericKinds \<Longrightarrow>
   buildEntry k v grp = Option.bind (assertList v) (\<lambda>vs. forEach vs (genericCase k) grp)"
  unfolding genericKinds_def
  by (elim disjE | simp add: buildEntry_def)+

lemma Build_generic_single:
  "k \<in> set genericKinds \<Longrightarrow>
   BuildAccessGroupCondition [(k, GList (map GString xs))] = Some (map (genericVariant k) xs)"
  by (simp add: BuildAccessGroupCondition_def buildEntry_generic forEach_genericCase)

text \<open>
  Claim C8. \<^verbatim>\<open>BuildAccessGroupCondition\<close> checks its input by type assertion only, and
  it has no error result: on a wrong-shaped value it panics. A string where the list of
  \<^verbatim>\<open>email\<close> is expected fails the assertion \<^verbatim>\<open>values.([]interface{})\<close>, and a
  boolean element of that list fails \<^verbatim>\<open>value.(string)\<close>.
\<close>

theorem BuildAccessGroupCondition_panics_on_wrong_shape:
  "BuildAccessGroupCondition [(''email'', GString ''a@x.com'')] = None
   \<and> BuildAccessGroupCondition [(''email'', GList [GBool True])] = None"
  by (simp add: BuildAccessGroupCondition_def buildEntry_def genericCase_def)

text \<open>
  Claim C9. For each of the kinds \<^verbatim>\<open>email\<close>, \<^verbatim>\<open>email_domain\<close>, \<^verbatim>\<open>ip\<close>,
  \<^verbatim>\<open>service_token\<close>, \<^verbatim>\<open>group\<close>, \<^verbatim>\<open>geo\<close>, \<^verbatim>\<open>login_method\<close> and
  \<^verbatim>\<open>device_posture\<close>, the list of values of the kind is expanded into exactly one
  variant per value, in the order of the values: whatever the other keys of the block
  produce before (\<open>p\<close>) and after (\<open>q\<close>), the kind contributes
  \<open>map (genericVariant k) xs\<close> between them.
\<close>

theorem BuildAccessGroupCondition_generic_kinds:
  assumes "k \<in> set genericKinds"
    and "BuildAccessGroupCondition pre = Some p"
    and "BuildAccessGroupCondition post = Some q"
  shows "BuildAccessGroupCondition (pre @ (k, GList (map GString xs)) # post)
         = Some (p @ map (genericVariant k) xs @ q)"
  using Build_append[OF assms(2) Build_append[OF Build_generic_single[OF assms(1), of xs] assms(3)]]
  by simp

theorem BuildAccessGroupCondition_generic_kinds_witness:
  "BuildAccessGroupCondition
     [(''everyone'', GBool True),
      (''ip'', GList [GString ''10.0.0.1'', GString ''10.0.0.2'']),
      (''common_name'', GString ''cn'')]
   = Some [AccessGroupEveryone, AccessGroupIP ''10.0.0.1'', AccessGroupIP ''10.0.0.2'',
           AccessGroupCertificateCommonName ''cn'']"
proof -
  have k: "''ip'' \<in> set genericKinds"
    by (simp add: genericKinds_def)
  have pre: "BuildAccessGroupCondition [(''everyone'', GBool True)] = Some [AccessGroupEveryone]"
    by (simp add: BuildAccessGroupCondition_def buildEntry_def)
  have post: "BuildAccessGroupCondition [(''common_name'', GString ''cn'')]
              = Some [AccessGroupCertificateCommonName ''cn'']"
    by (simp add: BuildAccessGroupCondition_def buildEntry_def)
  show ?thesis
    using BuildAccessGroupCondition_generic_kinds[OF k pre post, of "[''10.0.0.1'', ''10.0.0.2'']"]
    by (simp add: genericVariant_def)
qed

section \<open>Properties of appendConditionalAccessGroupFields\<close>

lemma lastBlock_Nil: "lastBlock [] = None"
  by (simp add: lastBlock_def)

lemma lastBlock_Cons:
  "lastBlock (b # bs) =
     (case lastBlock bs of None \<Rightarrow> (if b \<noteq> GNil then Some b else None) | Some x \<Rightarrow> Some x)"
  by (auto simp: lastBlock_def split: list.splits)

lemma overwrite_loop:
  assumes ok: "list_all blockOK blocks"
    and upd: "\<And>c c' g. upd c' (upd c g) = upd c' g"
  shows "forEach blocks (\<lambda>val grp.
            if val \<noteq> GNil then
              do { m \<leftarrow> assertMap val; c \<leftarrow> BuildAccessGroupCondition m; Some (upd c grp) }
            else Some grp) grp
         = Some (case lastBlock blocks of None \<Rightarrow> grp | Some b \<Rightarrow> upd (the (buildBlock b)) grp)"
  using ok
proof (induction blocks arbitrary: grp)
  case Nil
  show ?case by (simp add: lastBlock_Nil)
next
  case (Cons b bs)
  from Cons.prems have okb: "blockOK b" and okbs: "list_all blockOK bs" by simp_all
  show ?case
  proof (cases "b = GNil")
    case True
    then show ?thesis using Cons.IH[OF okbs, of grp]
      by (simp add: lastBlock_Cons split: option.splits)
  next
    case False
    with okb obtain c where c: "buildBlock b = Some c" by (auto simp: blockOK_def)
    then obtain m where m: "assertMap b = Some m" "BuildAccessGroupCondition m = Some c"
      by (auto simp: buildBlock_def split: Option.bind_splits)
    show ?thesis
      using False c m Cons.IH[OF okbs, of "upd c grp"]
      by (simp add: lastBlock_Cons upd split: option.splits)
  qed
qed

lemma lastBlock_Some: "lastBlock bs = Some b \<Longrightarrow> b \<in> set bs \<and> b \<noteq> GNil"
  by (induction bs) (auto simp: lastBlock_Nil lastBlock_Cons split: option.splits if_splits)

lemma lastBlock_builds:
  "list_all blockOK bs \<Longrightarrow> lastBlock bs = Some b \<Longrightarrow> \<exists>c. buildBlock b = Some c"
  using lastBlock_Some[of bs b] by (auto simp: list_all_iff blockOK_def)

text \<open>
  Claim C10. Each loop of \<^verbatim>\<open>appendConditionalAccessGroupFields\<close> assigns the field
  instead of appending to it. When every non-nil block is a map that
  \<^verbatim>\<open>BuildAccessGroupCondition\<close> accepts, the function returns, and each of
  \<^verbatim>\<open>Exclude\<close>, \<^verbatim>\<open>Require\<close> and \<^verbatim>\<open>Include\<close> holds the conditions built from
  the last non-nil block of its list alone (the conditions of the earlier blocks are gone);
  a field whose list has no non-nil block keeps the value it had.
\<close>

theorem appendConditionalAccessGroupFields_last_block_wins:
  assumes "list_all blockOK (excludeBlocks d @ requireBlocks d @ includeBlocks d)"
  shows "\<exists>g. appendConditionalAccessGroupFields grp d = Some g
    \<and> (case lastBlock (excludeBlocks d) of None \<Rightarrow> Exclude g = Exclude grp
        | Some b \<Rightarrow> buildBlock b = Some (Exclude g))
    \<and> (case lastBlock (requireBlocks d) of None \<Rightarrow> Require g = Require grp
        | Some b \<Rightarrow> buildBlock b = Some (Require g))
    \<and> (case lastBlock (includeBlocks d) of None \<Rightarrow> Include g = Include grp
        | Some b \<Rightarrow> buildBlock b = Some (Include g))"
proof -
  from assms have e: "list_all blockOK (excludeBlocks d)" and r: "list_all blockOK (requireBlocks d)"
    and i: "list_all blockOK (includeBlocks d)" by simp_all
  let ?g1 = "case lastBlock (excludeBlocks d) of None \<Rightarrow> grp
             | Some b \<Rightarrow> grp\<lparr>Exclude := the (buildBlock b)\<rparr>"
  let ?g2 = "case lastBlock (requireBlocks d) of None \<Rightarrow> ?g1
             | Some b \<Rightarrow> ?g1\<lparr>Require := the (buildBlock b)\<rparr>"
  let ?g3 = "case lastBlock (includeBlocks d) of None \<Rightarrow> ?g2
             | Some b \<Rightarrow> ?g2\<lparr>Include := the (buildBlock b)\<rparr>"
  have run: "appendConditionalAccessGroupFields grp d = Some ?g3"
    unfolding appendConditionalAccessGroupFields_def
    using overwrite_loop[OF e, of "\<lambda>c g. g\<lparr>Exclude := c\<rparr>" grp]
          overwrite_loop[OF r, of "\<lambda>c g. g\<lparr>Require := c\<rparr>" ?g1]
          overwrite_loop[OF i, of "\<lambda>c g. g\<lparr>Include := c\<rparr>" ?g2]
    by simp
  have ex: "case lastBlock (excludeBlocks d) of None \<Rightarrow> Exclude ?g3 = Exclude grp
        | Some b \<Rightarrow> buildBlock b = Some (Exclude ?g3)"
    using lastBlock_builds[OF e] by (auto split: option.splits)
  have rq: "case lastBlock (requireBlocks d) of None \<Rightarrow> Require ?g3 = Require grp
        | Some b \<Rightarrow> buildBlock b = Some (Require ?g3)"
    using lastBlock_builds[OF r] by (auto split: option.splits)
  have inc: "case lastBlock (includeBlocks d) of None \<Rightarrow> Include ?g3 = Include grp
        | Some b \<Rightarrow> buildBlock b = Some (Include ?g3)"
    using lastBlock_builds[OF i] by (auto split: option.splits)
  show ?thesis
    using run ex rq inc by blast
qed

theorem appendConditionalAccessGroupFields_last_block_wins_witness:
  "\<exists>g. appendConditionalAccessGroupFields
         \<lparr>ID = '''', Name = ''n'', Include = [], Exclude = [], Require = [AccessGroupEveryone]\<rparr>
         \<lparr>Id = '''', name = ''n'', requireBlocks = [],
          excludeBlocks = [GMap [(''email'', GList [GString ''a@x.com''])], GNil,
                           GMap [(''ip'', GList [GString ''10.0.0.1''])], GNil],
          includeBlocks = [GMap [(''everyone'', GBool True)],
                           GMap [(''geo'', GList [GString ''NL''])]]\<rparr> = Some g
       \<and> Exclude g = [AccessGroupIP ''10.0.0.1'']
       \<and> Require g = [AccessGroupEveryone]
       \<and> Include g = [AccessGroupGeo ''NL'']"
proof -
  let ?d = "\<lparr>Id = '''', name = ''n'', requireBlocks = [],
          excludeBlocks = [GMap [(''email'', GList [GString ''a@x.com''])], GNil,
                           GMap [(''ip'', GList [GString ''10.0.0.1''])], GNil],
          includeBlocks = [GMap [(''everyone'', GBool True)],
                           GMap [(''geo'', GList [GString ''NL''])]]\<rparr>"
  have b1: "buildBlock (GMap [(''email'', GList [GString ''a@x.com''])])
            = Some [AccessGroupEmail ''a@x.com'']"
    by (simp add: buildBlock_def BuildAccessGroupCondition_def buildEntry_def genericCase_def)
  have b2: "buildBlock (GMap [(''ip'', GList [GString ''10.0.0.1''])])
            = Some [AccessGroupIP ''10.0.0.1'']"
    by (simp add: buildBlock_def BuildAccessGroupCondition_def buildEntry_def genericCase_def)
  have b3: "buildBlock (GMap [(''everyone'', GBool True)]) = Some [AccessGroupEveryone]"
    by (simp add: buildBlock_def BuildAccessGroupCondition_def buildEntry_def)
  have b4: "buildBlock (GMap [(''geo'', GList [GString ''NL''])]) = Some [AccessGroupGeo ''NL'']"
    by (simp add: buildBlock_def BuildAccessGroupCondition_def buildEntry_def genericCase_def)
  have ok: "list_all blockOK (excludeBlocks ?d @ requireBlocks ?d @ includeBlocks ?d)"
    by (simp add: blockOK_def b1 b2 b3 b4)
  show ?thesis
    using appendConditionalAccessGroupFields_last_block_wins[OF ok, of "\<lparr>ID = '''', Name = ''n'', Include = [], Exclude = [],
                           Require = [AccessGroupEveryone]\<rparr>"]
    by (auto simp: lastBlock_def b2 b4)
qed

section \<open>Properties of the WAF rules data source\<close>

lemma scanRules_eq:
  "scanRules flt pkg ruleList (ids, details, found) =
     (ids @ map ruleID (filter (passesFilters flt) ruleList),
      details @ map (ruleDetail pkg) (filter (passesFilters flt) ruleList),
      found \<or> (GroupID flt \<noteq> '''' \<and> (\<exists>r \<in> set ruleList. ruleGroupID r = GroupID flt)))"
  by (induction ruleList arbitrary: ids details found)
     (auto simp: passesFilters_def Let_def split: option.splits)

lemma scanPackages_result:
  "scanPackages client zoneID flt pkgs (q, ids, details) = (q', Inr (ids', details')) \<Longrightarrow>
   \<exists>new. q' = q @ new
     \<and> ids' = ids @ concat (map (\<lambda>p. map ruleID (passing client zoneID flt p)) new)
     \<and> details' = details @ concat (map (\<lambda>p. map (ruleDetail p) (passing client zoneID flt p)) new)"
proof (induction pkgs arbitrary: q ids details)
  case Nil
  then show ?case by simp
next
  case (Cons pkg rest)
  show ?case
  proof (cases "ListWAFRules client zoneID (pkgID pkg)")
    case (Inl err)
    with Cons.prems show ?thesis by simp
  next
    case (Inr ruleList)
    then have p: "passing client zoneID flt (pkgID pkg) = filter (passesFilters flt) ruleList"
      by (simp add: passing_def rulesOf_def)
    show ?thesis
    proof (cases "GroupID flt \<noteq> '''' \<and> (\<exists>r \<in> set ruleList. ruleGroupID r = GroupID flt)")
      case True
      with Cons.prems Inr have "q' = q @ [pkgID pkg]"
        and "ids' = ids @ map ruleID (filter (passesFilters flt) ruleList)"
        and "details' = details @ map (ruleDetail (pkgID pkg)) (filter (passesFilters flt) ruleList)"
        by (simp_all add: scanRules_eq)
      then show ?thesis using p by (intro exI[of _ "[pkgID pkg]"]) simp
    next
      case False
      with Cons.prems Inr have
        "scanPackages client zoneID flt rest
           (q @ [pkgID pkg], ids @ map ruleID (filter (passesFilters flt) ruleList),
            details @ map (ruleDetail (pkgID pkg)) (filter (passesFilters flt) ruleList))
         = (q', Inr (ids', details'))"
        by (simp add: scanRules_eq)
      from Cons.IH[OF this] obtain new where
        "q' = (q @ [pkgID pkg]) @ new"
        "ids' = (ids @ map ruleID (filter (passesFilters flt) ruleList))
                 @ concat (map (\<lambda>p. map ruleID (passing client zoneID flt p)) new)"
        "details' = (details @ map (ruleDetail (pkgID pkg)) (filter (passesFilters flt) ruleList))
                 @ concat (map (\<lambda>p. map (ruleDetail p) (passing client zoneID flt p)) new)"
        by blast
      then show ?thesis using p by (intro exI[of _ "pkgID pkg # new"]) simp
    qed
  qed
qed

lemma Read_success:
  assumes "dataSourceCloudflareWAFRulesRead client (Inr flt) d = (queried, Inr d')"
  shows "\<exists>pkgList ruleIds.
           scanPackages client (zone_id d) flt pkgList ([], [], []) = (queried, Inr (ruleIds, rules d'))"
proof (cases "if package_id d = [] then ListWAFPackages client (zone_id d)
              else Inr [\<lparr>pkgID = package_id d\<rparr>]")
  case (Inl err)
  with assms show ?thesis
    by (simp add: dataSourceCloudflareWAFRulesRead_def Let_def del: scanPackages.simps)
next
  case (Inr pkgList)
  obtain q res where sp: "scanPackages client (zone_id d) flt pkgList ([], [], []) = (q, res)"
    by (cases "scanPackages client (zone_id d) flt pkgList ([], [], [])") auto
  show ?thesis
  proof (cases res)
    case (Inl err)
    with assms Inr sp show ?thesis
      by (simp add: dataSourceCloudflareWAFRulesRead_def Let_def del: scanPackages.simps)
  next
    case (Inr r)
    obtain ruleIds ruleDetails where r: "r = (ruleIds, ruleDetails)" by (cases r) auto
    from assms \<open>(if package_id d = [] then ListWAFPackages client (zone_id d)
              else Inr [\<lparr>pkgID = package_id d\<rparr>]) = Inr pkgList\<close> sp Inr r
    have "q = queried \<and> rules d' = ruleDetails"
      by (cases "setRulesError client")
         (auto simp add: dataSourceCloudflareWAFRulesRead_def Let_def simp del: scanPackages.simps)
    with sp Inr r show ?thesis by blast
  qed
qed

lemma scanPackages_trace:
  "\<exists>n. fst (scanPackages client zoneID flt pkgs (q, ids, details)) = q @ map pkgID (take n pkgs)"
proof (induction pkgs arbitrary: q ids details)
  case Nil
  show ?case by simp
next
  case (Cons pkg rest)
  show ?case
  proof (cases "ListWAFRules client zoneID (pkgID pkg)")
    case (Inl err)
    then show ?thesis by (intro exI[of _ "Suc 0"]) simp
  next
    case (Inr ruleList)
    show ?thesis
    proof (cases "GroupID flt \<noteq> '''' \<and> (\<exists>r \<in> set ruleList. ruleGroupID r = GroupID flt)")
      case True
      with Inr show ?thesis by (intro exI[of _ "Suc 0"]) (simp add: scanRules_eq)
    next
      case False
      from Cons.IH[of "q @ [pkgID pkg]" "ids @ map ruleID (filter (passesFilters flt) ruleList)"
          "details @ map (ruleDetail (pkgID pkg)) (filter (passesFilters flt) ruleList)"]
      obtain n where "fst (scanPackages client zoneID flt rest
           (q @ [pkgID pkg], ids @ map ruleID (filter (passesFilters flt) ruleList),
            details @ map (ruleDetail (pkgID pkg)) (filter (passesFilters flt) ruleList)))
          = (q @ [pkgID pkg]) @ map pkgID (take n rest)" by blast
      with False Inr show ?thesis by (intro exI[of _ "Suc n"]) (auto simp: scanRules_eq)
    qed
  qed
qed

lemma scanPackages_stop:
  assumes "GroupID flt \<noteq> ''''"
    and "ListWAFRules client zoneID (pkgID p) = Inr ruleList"
    and "\<exists>r \<in> set ruleList. ruleGroupID r = GroupID flt"
  shows "scanPackages client zoneID flt (pre @ p # post) st
         = scanPackages client zoneID flt (pre @ [p]) st"
proof (induction pre arbitrary: st)
  case Nil
  obtain q ids details where st: "st = (q, ids, details)" by (cases st) auto
  show ?case using assms by (simp add: st scanRules_eq)
next
  case (Cons pkg pre)
  obtain q ids details where st: "st = (q, ids, details)" by (cases st) auto
  show ?case
    by (simp add: st scanRules_eq Cons.IH split: sum.splits)
qed

text \<open>
  Claim C7. When the read succeeds, the emitted \<^verbatim>\<open>rules\<close> are, for each package
  whose rules were listed and in that order, exactly the rules of the package that pass the
  three filters together (description, mode and group ID, each passing when it is not set),
  in the order of the listing: a rule of a scanned package is emitted if and only if it
  passes all three.
\<close>

theorem WAFRulesRead_emits_passing_rules:
  assumes "dataSourceCloudflareWAFRulesRead client (Inr flt) d = (queried, Inr d')"
  shows "rules d' = concat (map (\<lambda>p. map (ruleDetail p)
                       (filter (passesFilters flt) (rulesOf client (zone_id d) p))) queried)"
proof -
  from Read_success[OF assms] obtain pkgList ruleIds where
    sp: "scanPackages client (zone_id d) flt pkgList ([], [], []) = (queried, Inr (ruleIds, rules d'))"
    by blast
  from scanPackages_result[OF sp] show ?thesis by (simp add: passing_def)
qed

theorem WAFRulesRead_emits_passing_rules_witness:
  "dataSourceCloudflareWAFRulesRead exampleWAF (Inr exampleFilter) exampleData
     = ([''p1'', ''p2''],
        Inr (exampleData\<lparr>rules := [ruleDetail ''p2'' (exampleRule ''r2'' ''g1'' ''on'')],
                          dataId := ''r2''\<rparr>))
   \<and> [ruleDetail ''p2'' (exampleRule ''r2'' ''g1'' ''on'')]
     = concat (map (\<lambda>p. map (ruleDetail p)
         (filter (passesFilters exampleFilter) (rulesOf exampleWAF ''z'' p))) [''p1'', ''p2''])"
proof -
  have run: "dataSourceCloudflareWAFRulesRead exampleWAF (Inr exampleFilter) exampleData
     = ([''p1'', ''p2''],
        Inr (exampleData\<lparr>rules := [ruleDetail ''p2'' (exampleRule ''r2'' ''g1'' ''on'')],
                          dataId := ''r2''\<rparr>))"
    by (simp add: dataSourceCloudflareWAFRulesRead_def exampleWAF_def exampleFilter_def
          exampleData_def exampleRule_def Let_def)
  show ?thesis
    using WAFRulesRead_emits_passing_rules[OF run] run by (simp add: exampleData_def)
qed

text \<open>
  Claim C3. With the \<^verbatim>\<open>group_id\<close> filter set, once the rules of a package \<open>p\<close>
  contain a rule of that group, the packages after \<open>p\<close> are not queried: the sequence of
  packages whose rules are asked of the API is a prefix of the packages up to and
  including \<open>p\<close>.
\<close>

theorem WAFRulesRead_stops_after_group:
  assumes "GroupID flt \<noteq> ''''"
    and "package_id d = ''''"
    and "ListWAFPackages client (zone_id d) = Inr (pre @ p # post)"
    and "ListWAFRules client (zone_id d) (pkgID p) = Inr ruleList"
    and "\<exists>r \<in> set ruleList. ruleGroupID r = GroupID flt"
  shows "prefix (fst (dataSourceCloudflareWAFRulesRead client (Inr flt) d)) (map pkgID (pre @ [p]))"
proof -
  obtain q res where sp:
    "scanPackages client (zone_id d) flt (pre @ p # post) ([], [], []) = (q, res)"
    by (cases "scanPackages client (zone_id d) flt (pre @ p # post) ([], [], [])") auto
  have "fst (dataSourceCloudflareWAFRulesRead client (Inr flt) d) = q"
  proof (cases res)
    case (Inl err)
    with assms(2,3) sp show ?thesis
      by (simp add: dataSourceCloudflareWAFRulesRead_def Let_def del: scanPackages.simps)
  next
    case (Inr r)
    with assms(2,3) sp show ?thesis
      by (cases r; cases "setRulesError client")
         (simp_all add: dataSourceCloudflareWAFRulesRead_def Let_def del: scanPackages.simps)
  qed
  then have "fst (dataSourceCloudflareWAFRulesRead client (Inr flt) d)
        = fst (scanPackages client (zone_id d) flt (pre @ p # post) ([], [], []))"
    using sp by simp
  also have "\<dots> = fst (scanPackages client (zone_id d) flt (pre @ [p]) ([], [], []))"
    by (rule arg_cong[OF scanPackages_stop[OF assms(1,4,5)]])
  finally have eq: "fst (dataSourceCloudflareWAFRulesRead client (Inr flt) d)
        = fst (scanPackages client (zone_id d) flt (pre @ [p]) ([], [], []))" .
  obtain n where n: "fst (scanPackages client (zone_id d) flt (pre @ [p]) ([], [], []))
        = [] @ map pkgID (take n (pre @ [p]))"
    using scanPackages_trace[of client "zone_id d" flt "pre @ [p]" "[]" "[]" "[]"] by blast
  have "prefix (map pkgID (take n (pre @ [p]))) (map pkgID (pre @ [p]))"
    by (rule map_mono_prefix) (rule take_is_prefix)
  then show ?thesis using eq n by simp
qed

theorem WAFRulesRead_stops_after_group_witness:
  "GroupID exampleFilter \<noteq> '''' \<and> package_id exampleData = ''''
   \<and> ListWAFPackages exampleWAF (zone_id exampleData)
       = Inr ([\<lparr>pkgID = ''p1''\<rparr>] @ \<lparr>pkgID = ''p2''\<rparr> # [\<lparr>pkgID = ''p3''\<rparr>])
   \<and> ListWAFRules exampleWAF (zone_id exampleData) ''p2''
       = Inr [exampleRule ''r2'' ''g1'' ''on'', exampleRule ''r3'' ''g1'' ''off'']
   \<and> prefix (fst (dataSourceCloudflareWAFRulesRead exampleWAF (Inr exampleFilter) exampleData))
            [''p1'', ''p2'']"
proof -
  have h1: "GroupID exampleFilter \<noteq> ''''" by (simp add: exampleFilter_def)
  have h2: "package_id exampleData = ''''" by (simp add: exampleData_def)
  have h3: "ListWAFPackages exampleWAF (zone_id exampleData)
       = Inr ([\<lparr>pkgID = ''p1''\<rparr>] @ \<lparr>pkgID = ''p2''\<rparr> # [\<lparr>pkgID = ''p3''\<rparr>])"
    by (simp add: exampleWAF_def)
  have h4: "ListWAFRules exampleWAF (zone_id exampleData) (pkgID \<lparr>pkgID = ''p2''\<rparr>)
       = Inr [exampleRule ''r2'' ''g1'' ''on'', exampleRule ''r3'' ''g1'' ''off'']"
    by (simp add: exampleWAF_def)
  have h5: "\<exists>r \<in> set [exampleRule ''r2'' ''g1'' ''on'', exampleRule ''r3'' ''g1'' ''off''].
              ruleGroupID r = GroupID exampleFilter"
    by (simp add: exampleRule_def exampleFilter_def)
  show ?thesis
    using WAFRulesRead_stops_after_group[OF h1 h2 h3 h4 h5] h1 h2 h3 h4 by simp
qed

section \<open>Properties of resourceCloudflareAccessGroupRead\<close>

text \<open>
  When the read call of the API fails, the handler decides on the text of the error alone:
  it looks for \<^verbatim>\<open>HTTP status 404\<close> in \<^verbatim>\<open>err.Error()\<close>. With the text the ID is
  cleared and no error is returned, so an error whose text names the status 404 is taken
  for a resource that is gone; without it the error is returned wrapped and the resource
  data is left as it was.
\<close>

lemma AccessGroupRead_decides_on_error_text:
  assumes "initIdentifier env d = Inr identifier"
    and "(if Type identifier = AccountType
          then clientAccessGroup env (Value identifier) (Id d)
          else clientZoneLevelAccessGroup env (Value identifier) (Id d)) = Inl err"
  shows "resourceCloudflareAccessGroupRead env d
         = (if strings_Contains (ErrorText err) ''HTTP status 404''
            then Some (None, d\<lparr>Id := ''''\<rparr>)
            else Some (Some (Errorf ''error finding Access Group %q: %w'' [Id d]
                               (ErrorText err)), d))"
  using assms by (simp add: resourceCloudflareAccessGroupRead_def)

lemma AccessGroupRead_clears_on_status_text:
  "StatusCode notFoundWithStatusText = 404
   \<and> resourceCloudflareAccessGroupRead (exampleAccess notFoundWithStatusText) exampleResource
     = Some (None, exampleResource\<lparr>Id := ''''\<rparr>)"
  by (simp add: resourceCloudflareAccessGroupRead_def exampleAccess_def
        notFoundWithStatusText_def exampleResource_def)

text \<open>
  Claim C4. The claim is that a read failing with an HTTP 404 clears the ID and returns no
  error, and that every other API error is returned wrapped with the ID unchanged. The
  handler does not do that, since it never looks at the status. At an error of status 404
  whose text does not hold \<^verbatim>\<open>HTTP status 404\<close> it returns the error wrapped and keeps
  the ID; at an error of status 400 whose text holds it, it clears the ID and returns no
  error.
\<close>

theorem AccessGroupRead_misses_http_404:
  "StatusCode notFound = 404
   \<and> resourceCloudflareAccessGroupRead (exampleAccess notFound) exampleResource
     = Some (Some (Errorf ''error finding Access Group %q: %w'' [''group-1'']
                     ''not found (1000)''), exampleResource)
   \<and> StatusCode badRequestQuotingText = 400
   \<and> resourceCloudflareAccessGroupRead (exampleAccess badRequestQuotingText) exampleResource
     = Some (None, exampleResource\<lparr>Id := ''''\<rparr>)"
  by (simp add: resourceCloudflareAccessGroupRead_def exampleAccess_def notFound_def
        badRequestQuotingText_def exampleResource_def)

section \<open>Properties of TransformAccessGroupForSchema\<close>

lemma forEach_accumulates:
  assumes step: "\<And>x s s'. x \<in> set xs \<Longrightarrow> body x s = Some s' \<Longrightarrow> g s' = g s @ h x"
    and run: "forEach xs body s = Some s'"
  shows "g s' = g s @ concat (map h xs)"
  using assms
proof (induction xs arbitrary: s)
  case Nil
  then show ?case by simp
next
  case (Cons x xs)
  from Cons.prems(2) obtain s1 where s1: "body x s = Some s1" and rest: "forEach xs body s1 = Some s'"
    by (auto split: Option.bind_splits)
  have "g s1 = g s @ h x" using Cons.prems(1)[of x s s1] s1 by simp
  moreover have "g s' = g s1 @ concat (map h xs)"
    using Cons.IH[OF _ rest] Cons.prems(1) by simp
  ultimately show ?case by simp
qed

lemma appendStrings_eq:
  assumes "appendStrings v acc = Some xs"
  shows "xs = acc @ stringsOf v"
proof -
  from assms obtain m where v: "v = GMap m"
    and run: "forEach m (\<lambda>(_, x) acc. Option.bind (assertString x) (\<lambda>s. Some (acc @ [s]))) acc = Some xs"
    by (cases v) (auto simp: appendStrings_def)
  have "xs = acc @ concat (map (\<lambda>(_, x). case x of GString s \<Rightarrow> [s] | _ \<Rightarrow> []) m)"
  proof (rule forEach_accumulates[where g = "\<lambda>s. s", OF _ run])
    fix x :: "string \<times> gval" and s s' :: "string list"
    assume "(case x of (_, x) \<Rightarrow> \<lambda>acc. Option.bind (assertString x) (\<lambda>s. Some (acc @ [s]))) s = Some s'"
    then show "s' = s @ (case x of (_, x) \<Rightarrow> case x of GString s \<Rightarrow> [s] | _ \<Rightarrow> [])"
      by (cases x; cases "snd x") (auto split: Option.bind_splits)
  qed
  with v show ?thesis by simp
qed

lemma transformKey_data:
  "transformKey k v a = Some a' \<Longrightarrow>
   data a' = data a @ (if k \<in> set flagKinds then [[(k, GBool True)]] else [])"
  unfolding transformKey_def flagKinds_def
  by (auto split: if_splits Option.bind_splits option.splits)

lemma transformKey_emails:
  "transformKey k v a = Some a' \<Longrightarrow>
   emails a' = emails a @ (if k = ''email'' then stringsOf v else [])"
  unfolding transformKey_def
  by (auto split: if_splits Option.bind_splits option.splits dest!: appendStrings_eq)

lemma transformKey_emailDomains:
  "transformKey k v a = Some a' \<Longrightarrow>
   emailDomains a' = emailDomains a @ (if k = ''email_domain'' then stringsOf v else [])"
  unfolding transformKey_def
  by (auto split: if_splits Option.bind_splits option.splits dest!: appendStrings_eq)

lemma transformKey_ips:
  "transformKey k v a = Some a' \<Longrightarrow>
   ips a' = ips a @ (if k = ''ip'' then stringsOf v else [])"
  unfolding transformKey_def
  by (auto split: if_splits Option.bind_splits option.splits dest!: appendStrings_eq)

lemma transformKey_serviceTokens:
  "transformKey k v a = Some a' \<Longrightarrow>
   serviceTokens a' = serviceTokens a @ (if k = ''service_token'' then stringsOf v else [])"
  unfolding transformKey_def
  by (auto split: if_splits Option.bind_splits option.splits dest!: appendStrings_eq)

lemma transformKey_groups:
  "transformKey k v a = Some a' \<Longrightarrow>
   groups a' = groups a @ (if k = ''group'' then stringsOf v else [])"
  unfolding transformKey_def
  by (auto split: if_splits Option.bind_splits option.splits dest!: appendStrings_eq)

lemma transformKey_geos:
  "transformKey k v a = Some a' \<Longrightarrow>
   geos a' = geos a @ (if k = ''geo'' then stringsOf v else [])"
  unfolding transformKey_def
  by (auto split: if_splits Option.bind_splits option.splits dest!: appendStrings_eq)

lemma transformKey_loginMethod:
  "transformKey k v a = Some a' \<Longrightarrow>
   loginMethod a' = loginMethod a @ (if k = ''login_method'' then stringsOf v else [])"
  unfolding transformKey_def
  by (auto split: if_splits Option.bind_splits option.splits dest!: appendStrings_eq)

lemma transformKey_devicePostureRuleIDs:
  "transformKey k v a = Some a' \<Longrightarrow>
   devicePostureRuleIDs a' = devicePostureRuleIDs a @ (if k = ''device_posture'' then stringsOf v else [])"
  unfolding transformKey_def
  by (auto split: if_splits Option.bind_splits option.splits dest!: appendStrings_eq)

lemma transformKey_listAcc:
  assumes "transformKey k' v a = Some a'" and "k \<in> set genericKinds"
  shows "listAcc k a' = listAcc k a @ (if k' = k then stringsOf v else [])"
  using assms(2) unfolding genericKinds_def
  by (elim disjE | simp add: listAcc_def transformKey_emails[OF assms(1)]
        transformKey_emailDomains[OF assms(1)] transformKey_ips[OF assms(1)]
        transformKey_serviceTokens[OF assms(1)] transformKey_groups[OF assms(1)]
        transformKey_geos[OF assms(1)] transformKey_loginMethod[OF assms(1)]
        transformKey_devicePostureRuleIDs[OF assms(1)])+

lemma scan_entries_data:
  assumes "forEach m (\<lambda>(groupKey, groupValue). transformKey groupKey groupValue) a = Some a'"
  shows "data a' = data a @ map (\<lambda>k. [(k, GBool True)]) (filter (\<lambda>k. k \<in> set flagKinds) (map fst m))"
proof -
  have "data a' = data a @ concat (map (\<lambda>(k, v). if k \<in> set flagKinds then [[(k, GBool True)]] else []) m)"
    by (rule forEach_accumulates[OF _ assms]) (auto dest: transformKey_data)
  also have "concat (map (\<lambda>(k, v). if k \<in> set flagKinds then [[(k, GBool True)]] else []) m)
      = map (\<lambda>k. [(k, GBool True)]) (filter (\<lambda>k. k \<in> set flagKinds) (map fst m))"
    by (induction m) auto
  finally show ?thesis .
qed

lemma scan_entries_listAcc:
  assumes "forEach m (\<lambda>(groupKey, groupValue). transformKey groupKey groupValue) a = Some a'"
    and "k \<in> set genericKinds"
  shows "listAcc k a' = listAcc k a @ concat (map (\<lambda>(k', v). if k' = k then stringsOf v else []) m)"
  by (rule forEach_accumulates[OF _ assms(1)]) (auto dest: transformKey_listAcc[OF _ assms(2)])

lemma scan_data:
  assumes "scanAccessGroup accessGroup a = Some a'"
  shows "data a' = data a @ map (\<lambda>k. [(k, GBool True)])
                              (filter (\<lambda>k. k \<in> set flagKinds) (inputKeys accessGroup))"
proof -
  have "data a' = data a @ concat (map (\<lambda>grp. map (\<lambda>k. [(k, GBool True)])
           (filter (\<lambda>k. k \<in> set flagKinds) (map fst (entriesOf grp)))) accessGroup)"
  proof (rule forEach_accumulates[OF _ assms[unfolded scanAccessGroup_def]])
    fix x s s'
    assume "Option.bind (assertMap x) (\<lambda>m. forEach m (\<lambda>(groupKey, groupValue). transformKey groupKey groupValue) s) = Some s'"
    then show "data s' = data s @ map (\<lambda>k. [(k, GBool True)])
           (filter (\<lambda>k. k \<in> set flagKinds) (map fst (entriesOf x)))"
      by (cases x) (auto dest: scan_entries_data)
  qed
  also have "concat (map (\<lambda>grp. map (\<lambda>k. [(k, GBool True)])
           (filter (\<lambda>k. k \<in> set flagKinds) (map fst (entriesOf grp)))) accessGroup)
     = map (\<lambda>k. [(k, GBool True)]) (filter (\<lambda>k. k \<in> set flagKinds) (inputKeys accessGroup))"
    by (induction accessGroup) (simp_all add: inputKeys_def)
  finally show ?thesis .
qed

lemma scan_listAcc:
  assumes "scanAccessGroup accessGroup a = Some a'" and "k \<in> set genericKinds"
  shows "listAcc k a' = listAcc k a @ matchedValues k accessGroup"
  unfolding matchedValues_def
proof (rule forEach_accumulates[OF _ assms(1)[unfolded scanAccessGroup_def]])
  fix x s s'
  assume "Option.bind (assertMap x) (\<lambda>m. forEach m (\<lambda>(groupKey, groupValue). transformKey groupKey groupValue) s) = Some s'"
  then show "listAcc k s' = listAcc k s
      @ concat (map (\<lambda>(k', v). if k' = k then stringsOf v else []) (entriesOf x))"
    by (cases x) (auto dest: scan_entries_listAcc[OF _ assms(2)])
qed

lemma keysOf_append: "keysOf (xs @ ys) = keysOf xs @ keysOf ys"
  by (simp add: keysOf_def)

lemma keysOf_if: "keysOf (if c then [[(k, v)]] else []) = (if c then [k] else [])"
  by (simp add: keysOf_def)

lemma filter_Cons_if: "filter P (k # ks) = (if P k then [k] else []) @ filter P ks"
  by simp

lemma emitCondition_simps:
  "emitCondition ''email'' a = (emails a \<noteq> [])"
  "emitCondition ''email_domain'' a = (emailDomains a \<noteq> [])"
  "emitCondition ''ip'' a = (ips a \<noteq> [])"
  "emitCondition ''service_token'' a = (serviceTokens a \<noteq> [])"
  "emitCondition ''common_name'' a = (commonName a \<noteq> [])"
  "emitCondition ''auth_method'' a = (authMethod a \<noteq> [])"
  "emitCondition ''geo'' a = (geos a \<noteq> [])"
  "emitCondition ''login_method'' a = (loginMethod a \<noteq> [])"
  "emitCondition ''okta'' a = (oktaGroups a \<noteq> [] \<and> oktaID a \<noteq> [])"
  "emitCondition ''gsuite'' a = (gsuiteEmails a \<noteq> [] \<and> gsuiteID a \<noteq> [])"
  "emitCondition ''github'' a = (githubID a \<noteq> [] \<and> githubName a \<noteq> [])"
  "emitCondition ''azure'' a = (azureIDs a \<noteq> [] \<and> azureID a \<noteq> [])"
  "emitCondition ''saml'' a = (samlAttrName a \<noteq> [] \<and> samlAttrValue a \<noteq> [])"
  "emitCondition ''external_evaluation'' a
     = (externalEvaluationURL a \<noteq> [] \<and> externalEvaluationKeysURL a \<noteq> [])"
  "emitCondition ''group'' a = (groups a \<noteq> [])"
  "emitCondition ''device_posture'' a = (devicePostureRuleIDs a \<noteq> [])"
  by (simp_all add: emitCondition_def)

lemma keysOf_postPass: "keysOf (postPass a) = filter (\<lambda>k. emitCondition k a) keyOrder"
  unfolding postPass_def keyOrder_def
  by (simp only: keysOf_append keysOf_if filter_Cons_if filter.simps(1) emitCondition_simps
        length_greater_0_conv append_Nil2)

lemma scan_Nil: "scanAccessGroup [] a = Some a"
  by (simp add: scanAccessGroup_def)

lemma scan_single:
  "scanAccessGroup (GMap [(k, gv)] # vs) a = Option.bind (transformKey k gv a) (scanAccessGroup vs)"
  by (cases "transformKey k gv a") (simp_all add: scanAccessGroup_def)

text \<open>
  On every list of variants that comes from the API encoding of the variant structs the
  function returns: no type assertion fails.
\<close>

lemma scan_toWire_step:
  "\<exists>a'. scanAccessGroup (toWire c # vs) a = scanAccessGroup vs a'"
  by (cases c)
     (simp_all add: scan_single transformKey_def appendStrings_def assignString_def index_def,
      blast+)

lemma scan_toWire_returns: "\<exists>a'. scanAccessGroup (map toWire cs) a = Some a'"
proof (induction cs arbitrary: a)
  case Nil
  show ?case by (simp add: scan_Nil)
next
  case (Cons c cs)
  from scan_toWire_step[of c "map toWire cs" a] obtain a1 where
    "scanAccessGroup (toWire c # map toWire cs) a = scanAccessGroup (map toWire cs) a1" by blast
  with Cons.IH[of a1] show ?case by simp
qed

lemma Transform_returns_on_wire:
  "\<exists>out. TransformAccessGroupForSchema (map toWire cs) = Some out"
  using scan_toWire_returns[of cs initialAccumulators]
  by (auto simp: TransformAccessGroupForSchema_def)

lemma keysOf_flags: "keysOf (map (\<lambda>k. [(k, GBool True)]) ks) = ks"
  by (induction ks) (simp_all add: keysOf_def)

lemma count_list_filter:
  "count_list (filter P xs) k = (if P k then count_list xs k else 0)"
  by (induction xs) auto

lemma count_list_distinct: "distinct xs \<Longrightarrow> x \<in> set xs \<Longrightarrow> count_list xs x = 1"
  by (induction xs) auto

lemma distinct_keyOrder: "distinct keyOrder"
  by (simp add: keyOrder_def)

lemma count_list_keyOrder: "k \<in> set keyOrder \<Longrightarrow> count_list keyOrder k = 1"
  by (rule count_list_distinct[OF distinct_keyOrder])

lemma flag_not_keyOrder: "k \<in> set flagKinds \<Longrightarrow> k \<notin> set keyOrder"
  unfolding flagKinds_def keyOrder_def by auto

lemma emitCondition_keyOrder: "emitCondition k a \<Longrightarrow> k \<in> set keyOrder"
  unfolding emitCondition_def keyOrder_def
  by (cases "k = ''email''"; cases "k = ''email_domain''"; cases "k = ''ip''"; simp split: if_splits)

lemma Transform_Some:
  "TransformAccessGroupForSchema accessGroup = Some out \<longleftrightarrow>
   (\<exists>a. scanAccessGroup accessGroup initialAccumulators = Some a \<and> out = data a @ postPass a)"
  by (auto simp: TransformAccessGroupForSchema_def split: Option.bind_splits)

lemma keysOf_output:
  assumes "scanAccessGroup accessGroup initialAccumulators = Some a"
  shows "keysOf (data a @ postPass a)
         = filter (\<lambda>k. k \<in> set flagKinds) (inputKeys accessGroup)
           @ filter (\<lambda>k. emitCondition k a) keyOrder"
  using scan_data[OF assms]
  by (simp add: keysOf_append keysOf_postPass keysOf_flags initialAccumulators_def)

lemma count_output:
  assumes "scanAccessGroup accessGroup initialAccumulators = Some a"
  shows "count_list (keysOf (data a @ postPass a)) k
         = (if k \<in> set flagKinds then count_list (inputKeys accessGroup) k
            else if emitCondition k a then 1 else 0)"
  using emitCondition_keyOrder[of k a] flag_not_keyOrder[of k] count_list_keyOrder[of k]
  by (auto simp: keysOf_output[OF assms] count_list_filter)

lemma exampleScan:
  "scanAccessGroup exampleConditions initialAccumulators
   = Some (initialAccumulators\<lparr>
       data := [[(''everyone'', GBool True)], [(''certificate'', GBool True)],
                [(''everyone'', GBool True)]],
       emails := [''a@x.com'', ''b@x.com''],
       oktaGroups := [''g'']\<rparr>)"
  by (simp add: exampleConditions_def scan_Nil scan_single transformKey_def appendStrings_def
        index_def initialAccumulators_def)

lemma exampleTransform:
  "TransformAccessGroupForSchema exampleConditions
   = Some [[(''everyone'', GBool True)], [(''certificate'', GBool True)],
           [(''everyone'', GBool True)], [(''email'', GStrings [''a@x.com'', ''b@x.com''])]]"
  unfolding TransformAccessGroupForSchema_def exampleScan
  by (simp add: postPass_def initialAccumulators_def)

lemma exampleInputKeys:
  "inputKeys exampleConditions
   = [''email'', ''everyone'', ''certificate'', ''email'', ''everyone'', ''okta'']"
  by (simp add: inputKeys_def exampleConditions_def)

text \<open>
  Claim C5 as stated fails. An Okta variant whose identity provider ID is empty leaves a
  value in the accumulator \<^verbatim>\<open>oktaGroups\<close>, and no \<^verbatim>\<open>okta\<close> entry is emitted;
  and two \<^verbatim>\<open>everyone\<close> variants give two \<^verbatim>\<open>everyone\<close> entries, not one.
\<close>

theorem TransformAccessGroupForSchema_accumulated_but_absent:
  "map_option oktaGroups
     (scanAccessGroup [toWire (AccessGroupOkta ''g'' '''')] initialAccumulators) = Some [''g'']
   \<and> TransformAccessGroupForSchema [toWire (AccessGroupOkta ''g'' '''')] = Some []
   \<and> TransformAccessGroupForSchema [toWire AccessGroupEveryone, toWire AccessGroupEveryone]
     = Some [[(''everyone'', GBool True)], [(''everyone'', GBool True)]]"
  by (simp add: TransformAccessGroupForSchema_def scan_Nil scan_single transformKey_def index_def
        postPass_def initialAccumulators_def)

text \<open>
  Claim C5, amended. When the scan of the variant list ends with the accumulators \<open>a\<close>,
  the function returns \<^verbatim>\<open>data\<close> followed by the entries of the post-pass, and a key other
  than \<^verbatim>\<open>everyone\<close>, \<^verbatim>\<open>any_valid_service_token\<close> and \<^verbatim>\<open>certificate\<close> occurs in
  the output once if the guard of its \<^verbatim>\<open>if\<close> statement holds of \<open>a\<close> and not at all
  otherwise. The guard is that the accumulator is non-empty for the eight list-valued kinds
  and for \<^verbatim>\<open>common_name\<close> and \<^verbatim>\<open>auth_method\<close>; that the list and the identity
  provider ID are both non-empty for \<^verbatim>\<open>okta\<close>, \<^verbatim>\<open>gsuite\<close> and \<^verbatim>\<open>azure\<close>; that
  the ID and the name are non-empty for \<^verbatim>\<open>github\<close>; and that both strings are non-empty
  for \<^verbatim>\<open>saml\<close> and \<^verbatim>\<open>external_evaluation\<close>. The three flag kinds have no
  accumulator: each occurs in the output as often as in the input.
\<close>

theorem TransformAccessGroupForSchema_emits_by_guard:
  assumes "scanAccessGroup accessGroup initialAccumulators = Some a"
  shows "TransformAccessGroupForSchema accessGroup = Some (data a @ postPass a)
     \<and> (\<forall>k. k \<notin> set flagKinds \<longrightarrow>
           count_list (keysOf (data a @ postPass a)) k = (if emitCondition k a then 1 else 0))
     \<and> (\<forall>k. k \<in> set flagKinds \<longrightarrow>
           count_list (keysOf (data a @ postPass a)) k = count_list (inputKeys accessGroup) k)"
  using assms by (simp add: TransformAccessGroupForSchema_def count_output[OF assms])

theorem TransformAccessGroupForSchema_emits_by_guard_witness:
  "TransformAccessGroupForSchema exampleConditions
   = Some [[(''everyone'', GBool True)], [(''certificate'', GBool True)],
           [(''everyone'', GBool True)], [(''email'', GStrings [''a@x.com'', ''b@x.com''])]]
   \<and> count_list (keysOf [[(''everyone'', GBool True)], [(''certificate'', GBool True)],
           [(''everyone'', GBool True)], [(''email'', GStrings [''a@x.com'', ''b@x.com''])]])
         ''email'' = 1
   \<and> count_list (keysOf [[(''everyone'', GBool True)], [(''certificate'', GBool True)],
           [(''everyone'', GBool True)], [(''email'', GStrings [''a@x.com'', ''b@x.com''])]])
         ''okta'' = 0
   \<and> count_list (keysOf [[(''everyone'', GBool True)], [(''certificate'', GBool True)],
           [(''everyone'', GBool True)], [(''email'', GStrings [''a@x.com'', ''b@x.com''])]])
         ''everyone'' = count_list (inputKeys exampleConditions) ''everyone''"
proof -
  let ?a = "initialAccumulators\<lparr>
       data := [[(''everyone'', GBool True)], [(''certificate'', GBool True)],
                [(''everyone'', GBool True)]],
       emails := [''a@x.com'', ''b@x.com''],
       oktaGroups := [''g'']\<rparr>"
  have out: "data ?a @ postPass ?a
     = [[(''everyone'', GBool True)], [(''certificate'', GBool True)],
        [(''everyone'', GBool True)], [(''email'', GStrings [''a@x.com'', ''b@x.com''])]]"
    by (simp add: postPass_def initialAccumulators_def)
  have e1: "emitCondition ''email'' ?a" by (simp add: emitCondition_def)
  have e2: "\<not> emitCondition ''okta'' ?a" by (simp add: emitCondition_def initialAccumulators_def)
  have f1: "''email'' \<notin> set flagKinds" "''okta'' \<notin> set flagKinds" "''everyone'' \<in> set flagKinds"
    by (simp_all add: flagKinds_def)
  from TransformAccessGroupForSchema_emits_by_guard[OF exampleScan] have
    t: "TransformAccessGroupForSchema exampleConditions = Some (data ?a @ postPass ?a)"
    and c1: "\<forall>k. k \<notin> set flagKinds \<longrightarrow>
           count_list (keysOf (data ?a @ postPass ?a)) k = (if emitCondition k ?a then 1 else 0)"
    and c2: "\<forall>k. k \<in> set flagKinds \<longrightarrow>
           count_list (keysOf (data ?a @ postPass ?a)) k = count_list (inputKeys exampleConditions) k"
    by blast+
  from c1 f1(1) e1 have "count_list (keysOf (data ?a @ postPass ?a)) ''email'' = 1" by simp
  moreover from c1 f1(2) e2 have "count_list (keysOf (data ?a @ postPass ?a)) ''okta'' = 0" by simp
  moreover from c2 f1(3) have "count_list (keysOf (data ?a @ postPass ?a)) ''everyone''
      = count_list (inputKeys exampleConditions) ''everyone''" by simp
  ultimately show ?thesis using t unfolding out by simp
qed

text \<open>
  Claim C6 as stated fails. The entries of \<^verbatim>\<open>everyone\<close>, \<^verbatim>\<open>any_valid_service_token\<close>
  and \<^verbatim>\<open>certificate\<close> are appended during the scan, so two inputs with the same
  variants in another order give their keys in another order.
\<close>

theorem TransformAccessGroupForSchema_flag_order_follows_input:
  "mset [toWire AccessGroupEveryone, toWire AccessGroupCertificate]
     = mset [toWire AccessGroupCertificate, toWire AccessGroupEveryone]
   \<and> map_option keysOf
       (TransformAccessGroupForSchema [toWire AccessGroupEveryone, toWire AccessGroupCertificate])
     = Some [''everyone'', ''certificate'']
   \<and> map_option keysOf
       (TransformAccessGroupForSchema [toWire AccessGroupCertificate, toWire AccessGroupEveryone])
     = Some [''certificate'', ''everyone'']"
  by (simp add: TransformAccessGroupForSchema_def scan_Nil scan_single transformKey_def
        postPass_def initialAccumulators_def keysOf_def)

text \<open>
  Claim C6, amended. Whenever the function returns, the keys of its output are the keys
  \<^verbatim>\<open>everyone\<close>, \<^verbatim>\<open>any_valid_service_token\<close> and \<^verbatim>\<open>certificate\<close> in the order
  and number in which the input holds them, followed by the other keys that occur, in the
  fixed order of the \<^verbatim>\<open>if\<close> statements of the source (\<open>keyOrder\<close>), whatever the
  order of the variants in the input.
\<close>

theorem TransformAccessGroupForSchema_key_order:
  assumes "TransformAccessGroupForSchema accessGroup = Some out"
  shows "keysOf out = filter (\<lambda>k. k \<in> set flagKinds) (inputKeys accessGroup)
                      @ filter (\<lambda>k. k \<in> set (keysOf out)) keyOrder"
proof -
  from assms obtain a where a: "scanAccessGroup accessGroup initialAccumulators = Some a"
    and out: "out = data a @ postPass a"
    by (auto simp: Transform_Some)
  have keys: "keysOf out = filter (\<lambda>k. k \<in> set flagKinds) (inputKeys accessGroup)
           @ filter (\<lambda>k. emitCondition k a) keyOrder"
    using keysOf_output[OF a] out by simp
  have "filter (\<lambda>k. k \<in> set (keysOf out)) keyOrder = filter (\<lambda>k. emitCondition k a) keyOrder"
  proof (rule filter_cong[OF refl])
    fix k assume k: "k \<in> set keyOrder"
    then have "k \<notin> set flagKinds" using flag_not_keyOrder[of k] by blast
    with k show "(k \<in> set (keysOf out)) = emitCondition k a"
      by (auto simp: keys)
  qed
  with keys show ?thesis by simp
qed

theorem TransformAccessGroupForSchema_key_order_witness:
  "TransformAccessGroupForSchema exampleConditions
   = Some [[(''everyone'', GBool True)], [(''certificate'', GBool True)],
           [(''everyone'', GBool True)], [(''email'', GStrings [''a@x.com'', ''b@x.com''])]]
   \<and> [''everyone'', ''certificate'', ''everyone'', ''email'']
     = filter (\<lambda>k. k \<in> set flagKinds) (inputKeys exampleConditions)
       @ filter (\<lambda>k. k \<in> set [''everyone'', ''certificate'', ''everyone'', ''email'']) keyOrder"
proof -
  have k: "keysOf [[(''everyone'', GBool True)], [(''certificate'', GBool True)],
           [(''everyone'', GBool True)], [(''email'', GStrings [''a@x.com'', ''b@x.com''])]]
     = [''everyone'', ''certificate'', ''everyone'', ''email'']"
    by (simp add: keysOf_def)
  show ?thesis
    using TransformAccessGroupForSchema_key_order[OF exampleTransform] exampleTransform unfolding k by blast
qed

lemma set_if_single: "x \<in> set (if c then [y] else []) \<longleftrightarrow> c \<and> x = y"
  by auto

lemma generic_entry_in_postPass:
  assumes "k \<in> set genericKinds" and "listAcc k a \<noteq> []"
  shows "[(k, GStrings (listAcc k a))] \<in> set (postPass a)"
  using assms unfolding genericKinds_def
  by (elim disjE | simp add: listAcc_def postPass_def set_if_single)+

lemma generic_emitCondition:
  "k \<in> set genericKinds \<Longrightarrow> emitCondition k a = (listAcc k a \<noteq> [])"
  unfolding genericKinds_def
  by (elim disjE | simp add: listAcc_def emitCondition_def)+

lemma generic_not_flag: "k \<in> set genericKinds \<Longrightarrow> k \<notin> set flagKinds"
  unfolding genericKinds_def flagKinds_def by auto

text \<open>
  Claim C2 as stated fails. Two \<^verbatim>\<open>everyone\<close> variants are not merged: the output has
  two entries with the key \<^verbatim>\<open>everyone\<close>.
\<close>

theorem TransformAccessGroupForSchema_repeats_flag_entries:
  "TransformAccessGroupForSchema [toWire AccessGroupEveryone, toWire AccessGroupEveryone]
     = Some [[(''everyone'', GBool True)], [(''everyone'', GBool True)]]
   \<and> count_list (keysOf [[(''everyone'', GBool True)], [(''everyone'', GBool True)]])
        ''everyone'' = 2"
  by (simp add: TransformAccessGroupForSchema_def scan_Nil scan_single transformKey_def
        postPass_def initialAccumulators_def keysOf_def)

text \<open>
  Claim C2, amended. Whenever the function returns, its output holds at most one entry for
  every key other than \<^verbatim>\<open>everyone\<close>, \<^verbatim>\<open>any_valid_service_token\<close> and
  \<^verbatim>\<open>certificate\<close>. For each of the eight list-valued kinds (\<^verbatim>\<open>email\<close>,
  \<^verbatim>\<open>email_domain\<close>, \<^verbatim>\<open>ip\<close>, \<^verbatim>\<open>service_token\<close>, \<^verbatim>\<open>group\<close>, \<^verbatim>\<open>geo\<close>,
  \<^verbatim>\<open>login_method\<close>, \<^verbatim>\<open>device_posture\<close>) that entry is absent when no value of the
  kind is matched, and otherwise it is the single-key map whose value is the array of all
  the matched values in the order of the input. The three flag kinds are not merged: each
  has one entry per occurrence in the input.
\<close>

theorem TransformAccessGroupForSchema_one_entry_per_merged_kind:
  assumes "TransformAccessGroupForSchema accessGroup = Some out"
  shows "(\<forall>k. k \<notin> set flagKinds \<longrightarrow> count_list (keysOf out) k \<le> 1)
     \<and> (\<forall>k \<in> set genericKinds.
           if matchedValues k accessGroup = [] then k \<notin> set (keysOf out)
           else [(k, GStrings (matchedValues k accessGroup))] \<in> set out)
     \<and> (\<forall>k \<in> set flagKinds. count_list (keysOf out) k = count_list (inputKeys accessGroup) k)"
proof -
  from assms obtain a where a: "scanAccessGroup accessGroup initialAccumulators = Some a"
    and out: "out = data a @ postPass a"
    by (auto simp: Transform_Some)
  have acc: "\<And>k. k \<in> set genericKinds \<Longrightarrow> listAcc k a = matchedValues k accessGroup"
  proof -
    fix k assume k: "k \<in> set genericKinds"
    have "listAcc k initialAccumulators = []"
      by (simp add: listAcc_def initialAccumulators_def)
    with scan_listAcc[OF a k] show "listAcc k a = matchedValues k accessGroup" by simp
  qed
  have one: "\<forall>k. k \<notin> set flagKinds \<longrightarrow> count_list (keysOf out) k \<le> 1"
    by (simp add: out count_output[OF a])
  have flags: "\<forall>k \<in> set flagKinds. count_list (keysOf out) k = count_list (inputKeys accessGroup) k"
    by (simp add: out count_output[OF a])
  have gen: "\<forall>k \<in> set genericKinds.
           if matchedValues k accessGroup = [] then k \<notin> set (keysOf out)
           else [(k, GStrings (matchedValues k accessGroup))] \<in> set out"
  proof
    fix k assume k: "k \<in> set genericKinds"
    show "if matchedValues k accessGroup = [] then k \<notin> set (keysOf out)
           else [(k, GStrings (matchedValues k accessGroup))] \<in> set out"
    proof (cases "matchedValues k accessGroup = []")
      case True
      then have "\<not> emitCondition k a" using generic_emitCondition[OF k] acc[OF k] by simp
      then have "count_list (keysOf out) k = 0"
        using generic_not_flag[OF k] by (simp add: out count_output[OF a])
      with True show ?thesis by (simp add: count_list_0_iff)
    next
      case False
      then have ne: "listAcc k a \<noteq> []" using acc[OF k] by simp
      from generic_entry_in_postPass[OF k ne] False show ?thesis
        by (simp add: out acc[OF k])
    qed
  qed
  from one gen flags show ?thesis by blast
qed

theorem TransformAccessGroupForSchema_one_entry_per_merged_kind_witness:
  "TransformAccessGroupForSchema exampleConditions
   = Some [[(''everyone'', GBool True)], [(''certificate'', GBool True)],
           [(''everyone'', GBool True)], [(''email'', GStrings [''a@x.com'', ''b@x.com''])]]
   \<and> count_list (keysOf [[(''everyone'', GBool True)], [(''certificate'', GBool True)],
           [(''everyone'', GBool True)], [(''email'', GStrings [''a@x.com'', ''b@x.com''])]])
         ''email'' \<le> 1
   \<and> matchedValues ''email'' exampleConditions = [''a@x.com'', ''b@x.com'']
   \<and> [(''email'', GStrings [''a@x.com'', ''b@x.com''])]
       \<in> set [[(''everyone'', GBool True)], [(''certificate'', GBool True)],
           [(''everyone'', GBool True)], [(''email'', GStrings [''a@x.com'', ''b@x.com''])]]"
proof -
  let ?out = "[[(''everyone'', GBool True)], [(''certificate'', GBool True)],
           [(''everyone'', GBool True)], [(''email'', GStrings [''a@x.com'', ''b@x.com''])]]"
  have m: "matchedValues ''email'' exampleConditions = [''a@x.com'', ''b@x.com'']"
    by (simp add: matchedValues_def exampleConditions_def)
  have f: "''email'' \<notin> set flagKinds" by (simp add: flagKinds_def)
  have g: "''email'' \<in> set genericKinds" by (simp add: genericKinds_def)
  from TransformAccessGroupForSchema_one_entry_per_merged_kind[OF exampleTransform] have
    one: "\<forall>k. k \<notin> set flagKinds \<longrightarrow> count_list (keysOf ?out) k \<le> 1"
    and gen: "\<forall>k \<in> set genericKinds.
           if matchedValues k exampleConditions = [] then k \<notin> set (keysOf ?out)
           else [(k, GStrings (matchedValues k exampleConditions))] \<in> set ?out"
    by blast+
  from one f have "count_list (keysOf ?out) ''email'' \<le> 1" by blast
  moreover from gen g m have "[(''email'', GStrings [''a@x.com'', ''b@x.com''])] \<in> set ?out"
    by (auto split: if_splits)
  ultimately show ?thesis using exampleTransform m by blast
qed

section \<open>Round trip of one block\<close>

lemma forEach_map_append:
  "(\<And>x s. body (f x) s = Some (s @ [g x])) \<Longrightarrow>
   forEach (map f xs) body s = Some (s @ map g xs)"
  by (induction xs arbitrary: s) simp_all

lemma scan_emails:
  "scanAccessGroup (map (\<lambda>s. toWire (AccessGroupEmail s)) xs) a = Some (a\<lparr>emails := emails a @ xs\<rparr>)"
  by (induction xs arbitrary: a)
     (simp_all add: scan_Nil scan_single transformKey_def appendStrings_def)

lemma roundTrip_email:
  "xs \<noteq> [] \<Longrightarrow> roundTrip [(''email'', asStrings xs)] = Some [[(''email'', GStrings xs)]]"
  using Build_generic_single[of "''email''" xs] scan_emails[of xs initialAccumulators]
  by (simp add: roundTrip_def asStrings_def genericKinds_def genericVariant_def comp_def
        TransformAccessGroupForSchema_def postPass_def initialAccumulators_def)

lemma scan_emailDomains:
  "scanAccessGroup (map (\<lambda>s. toWire (AccessGroupEmailDomain s)) xs) a = Some (a\<lparr>emailDomains := emailDomains a @ xs\<rparr>)"
  by (induction xs arbitrary: a)
     (simp_all add: scan_Nil scan_single transformKey_def appendStrings_def)

lemma roundTrip_email_domain:
  "xs \<noteq> [] \<Longrightarrow> roundTrip [(''email_domain'', asStrings xs)] = Some [[(''email_domain'', GStrings xs)]]"
  using Build_generic_single[of "''email_domain''" xs] scan_emailDomains[of xs initialAccumulators]
  by (simp add: roundTrip_def asStrings_def genericKinds_def genericVariant_def comp_def
        TransformAccessGroupForSchema_def postPass_def initialAccumulators_def)

lemma scan_ips:
  "scanAccessGroup (map (\<lambda>s. toWire (AccessGroupIP s)) xs) a = Some (a\<lparr>ips := ips a @ xs\<rparr>)"
  by (induction xs arbitrary: a)
     (simp_all add: scan_Nil scan_single transformKey_def appendStrings_def)

lemma roundTrip_ip:
  "xs \<noteq> [] \<Longrightarrow> roundTrip [(''ip'', asStrings xs)] = Some [[(''ip'', GStrings xs)]]"
  using Build_generic_single[of "''ip''" xs] scan_ips[of xs initialAccumulators]
  by (simp add: roundTrip_def asStrings_def genericKinds_def genericVariant_def comp_def
        TransformAccessGroupForSchema_def postPass_def initialAccumulators_def)

lemma scan_serviceTokens:
  "scanAccessGroup (map (\<lambda>s. toWire (AccessGroupServiceToken s)) xs) a = Some (a\<lparr>serviceTokens := serviceTokens a @ xs\<rparr>)"
  by (induction xs arbitrary: a)
     (simp_all add: scan_Nil scan_single transformKey_def appendStrings_def)

lemma roundTrip_service_token:
  "xs \<noteq> [] \<Longrightarrow> roundTrip [(''service_token'', asStrings xs)] = Some [[(''service_token'', GStrings xs)]]"
  using Build_generic_single[of "''service_token''" xs] scan_serviceTokens[of xs initialAccumulators]
  by (simp add: roundTrip_def asStrings_def genericKinds_def genericVariant_def comp_def
        TransformAccessGroupForSchema_def postPass_def initialAccumulators_def)

lemma scan_groups:
  "scanAccessGroup (map (\<lambda>s. toWire (AccessGroupAccessGroup s)) xs) a = Some (a\<lparr>groups := groups a @ xs\<rparr>)"
  by (induction xs arbitrary: a)
     (simp_all add: scan_Nil scan_single transformKey_def appendStrings_def)

lemma roundTrip_group:
  "xs \<noteq> [] \<Longrightarrow> roundTrip [(''group'', asStrings xs)] = Some [[(''group'', GStrings xs)]]"
  using Build_generic_single[of "''group''" xs] scan_groups[of xs initialAccumulators]
  by (simp add: roundTrip_def asStrings_def genericKinds_def genericVariant_def comp_def
        TransformAccessGroupForSchema_def postPass_def initialAccumulators_def)

lemma scan_geos:
  "scanAccessGroup (map (\<lambda>s. toWire (AccessGroupGeo s)) xs) a = Some (a\<lparr>geos := geos a @ xs\<rparr>)"
  by (induction xs arbitrary: a)
     (simp_all add: scan_Nil scan_single transformKey_def appendStrings_def)

lemma roundTrip_geo:
  "xs \<noteq> [] \<Longrightarrow> roundTrip [(''geo'', asStrings xs)] = Some [[(''geo'', GStrings xs)]]"
  using Build_generic_single[of "''geo''" xs] scan_geos[of xs initialAccumulators]
  by (simp add: roundTrip_def asStrings_def genericKinds_def genericVariant_def comp_def
        TransformAccessGroupForSchema_def postPass_def initialAccumulators_def)

lemma scan_loginMethod:
  "scanAccessGroup (map (\<lambda>s. toWire (AccessGroupLoginMethod s)) xs) a = Some (a\<lparr>loginMethod := loginMethod a @ xs\<rparr>)"
  by (induction xs arbitrary: a)
     (simp_all add: scan_Nil scan_single transformKey_def appendStrings_def)

lemma roundTrip_login_method:
  "xs \<noteq> [] \<Longrightarrow> roundTrip [(''login_method'', asStrings xs)] = Some [[(''login_method'', GStrings xs)]]"
  using Build_generic_single[of "''login_method''" xs] scan_loginMethod[of xs initialAccumulators]
  by (simp add: roundTrip_def asStrings_def genericKinds_def genericVariant_def comp_def
        TransformAccessGroupForSchema_def postPass_def initialAccumulators_def)

lemma scan_devicePostureRuleIDs:
  "scanAccessGroup (map (\<lambda>s. toWire (AccessGroupDevicePosture s)) xs) a = Some (a\<lparr>devicePostureRuleIDs := devicePostureRuleIDs a @ xs\<rparr>)"
  by (induction xs arbitrary: a)
     (simp_all add: scan_Nil scan_single transformKey_def appendStrings_def)

lemma roundTrip_device_posture:
  "xs \<noteq> [] \<Longrightarrow> roundTrip [(''device_posture'', asStrings xs)] = Some [[(''device_posture'', GStrings xs)]]"
  using Build_generic_single[of "''device_posture''" xs] scan_devicePostureRuleIDs[of xs initialAccumulators]
  by (simp add: roundTrip_def asStrings_def genericKinds_def genericVariant_def comp_def
        TransformAccessGroupForSchema_def postPass_def initialAccumulators_def)

lemma roundTrip_generic:
  assumes "k \<in> set genericKinds" and "xs \<noteq> []"
  shows "roundTrip [(k, asStrings xs)] = Some [[(k, GStrings xs)]]"
  using assms(1) unfolding genericKinds_def
  by (elim disjE | simp add: assms(2) roundTrip_email roundTrip_email_domain roundTrip_ip roundTrip_service_token roundTrip_group roundTrip_geo roundTrip_login_method roundTrip_device_posture)+

lemma roundTrip_flag:
  assumes "k \<in> set flagKinds"
  shows "roundTrip [(k, GBool True)] = Some [[(k, GBool True)]]"
  using assms unfolding flagKinds_def
  by (elim disjE | simp add: roundTrip_def BuildAccessGroupCondition_def buildEntry_def
        TransformAccessGroupForSchema_def scan_Nil scan_single transformKey_def
        postPass_def initialAccumulators_def)+

lemma roundTrip_common_name:
  "s \<noteq> '''' \<Longrightarrow> roundTrip [(''common_name'', GString s)] = Some [[(''common_name'', GString s)]]"
  by (simp add: roundTrip_def BuildAccessGroupCondition_def buildEntry_def
        TransformAccessGroupForSchema_def scan_Nil scan_single transformKey_def assignString_def
        postPass_def initialAccumulators_def)

lemma roundTrip_auth_method:
  "s \<noteq> '''' \<Longrightarrow> roundTrip [(''auth_method'', GString s)] = Some [[(''auth_method'', GString s)]]"
  by (simp add: roundTrip_def BuildAccessGroupCondition_def buildEntry_def
        TransformAccessGroupForSchema_def scan_Nil scan_single transformKey_def assignString_def
        postPass_def initialAccumulators_def)

lemma Build_okta:
  "BuildAccessGroupCondition
     [(''okta'', GList [GMap [(''identity_provider_id'', GString i), (''name'', asStrings xs)]])]
   = Some (map (\<lambda>n. AccessGroupOkta n i) xs)"
  by (simp add: BuildAccessGroupCondition_def buildEntry_def asStrings_def index_def
        forEach_map_append[where g = "\<lambda>n. AccessGroupOkta n i"])

lemma scan_okta:
  "scanAccessGroup (map (\<lambda>n. toWire (AccessGroupOkta n i)) xs) a
   = Some (a\<lparr>oktaID := (if xs = [] then oktaID a else i), oktaGroups := oktaGroups a @ xs\<rparr>)"
  by (induction xs arbitrary: a)
     (simp_all add: scan_Nil scan_single transformKey_def index_def)

lemma roundTrip_okta:
  "i \<noteq> '''' \<Longrightarrow> xs \<noteq> [] \<Longrightarrow>
   roundTrip [(''okta'', GList [GMap [(''identity_provider_id'', GString i),
                                      (''name'', asStrings xs)]])]
   = Some [[(''okta'', GList [GMap [(''identity_provider_id'', GString i),
                                    (''name'', GStrings xs)]])]]"
  using scan_okta[of i xs initialAccumulators]
  by (simp add: roundTrip_def Build_okta comp_def
        TransformAccessGroupForSchema_def postPass_def initialAccumulators_def)

lemma Build_gsuite:
  "BuildAccessGroupCondition
     [(''gsuite'', GList [GMap [(''identity_provider_id'', GString i), (''email'', asStrings xs)]])]
   = Some (map (\<lambda>e. AccessGroupGSuite e i) xs)"
  by (simp add: BuildAccessGroupCondition_def buildEntry_def asStrings_def index_def
        forEach_map_append[where g = "\<lambda>e. AccessGroupGSuite e i"])

lemma scan_gsuite:
  "scanAccessGroup (map (\<lambda>e. toWire (AccessGroupGSuite e i)) xs) a
   = Some (a\<lparr>gsuiteID := (if xs = [] then gsuiteID a else i), gsuiteEmails := gsuiteEmails a @ xs\<rparr>)"
  by (induction xs arbitrary: a)
     (simp_all add: scan_Nil scan_single transformKey_def index_def)

lemma roundTrip_gsuite:
  "i \<noteq> '''' \<Longrightarrow> xs \<noteq> [] \<Longrightarrow>
   roundTrip [(''gsuite'', GList [GMap [(''identity_provider_id'', GString i),
                                        (''email'', asStrings xs)]])]
   = Some [[(''gsuite'', GList [GMap [(''identity_provider_id'', GString i),
                                      (''email'', GStrings xs)]])]]"
  using scan_gsuite[of i xs initialAccumulators]
  by (simp add: roundTrip_def Build_gsuite comp_def
        TransformAccessGroupForSchema_def postPass_def initialAccumulators_def)

lemma Build_azure:
  "BuildAccessGroupCondition
     [(''azure'', GList [GMap [(''identity_provider_id'', GString i), (''id'', asStrings xs)]])]
   = Some (map (\<lambda>d. AccessGroupAzure d i) xs)"
  by (simp add: BuildAccessGroupCondition_def buildEntry_def asStrings_def index_def
        forEach_map_append[where g = "\<lambda>d. AccessGroupAzure d i"])

lemma scan_azure:
  "scanAccessGroup (map (\<lambda>d. toWire (AccessGroupAzure d i)) xs) a
   = Some (a\<lparr>azureID := (if xs = [] then azureID a else i), azureIDs := azureIDs a @ xs\<rparr>)"
  by (induction xs arbitrary: a)
     (simp_all add: scan_Nil scan_single transformKey_def index_def)

lemma roundTrip_azure:
  "i \<noteq> '''' \<Longrightarrow> xs \<noteq> [] \<Longrightarrow>
   roundTrip [(''azure'', GList [GMap [(''identity_provider_id'', GString i),
                                       (''id'', asStrings xs)]])]
   = Some [[(''azure'', GList [GMap [(''identity_provider_id'', GString i),
                                     (''id'', GStrings xs)]])]]"
  using scan_azure[of i xs initialAccumulators]
  by (simp add: roundTrip_def Build_azure comp_def
        TransformAccessGroupForSchema_def postPass_def initialAccumulators_def)

lemma Build_github:
  "BuildAccessGroupCondition
     [(''github'', GList [GMap [(''name'', GString n), (''teams'', asStrings ts),
                                (''identity_provider_id'', GString i)]])]
   = Some (if ts = [] then [AccessGroupGitHub n '''' i] else map (\<lambda>t. AccessGroupGitHub n t i) ts)"
  by (simp add: BuildAccessGroupCondition_def buildEntry_def asStrings_def index_def
        forEach_map_append[where g = "\<lambda>t. AccessGroupGitHub n t i"])

lemma scan_github:
  "'''' \<notin> set ts \<Longrightarrow>
   scanAccessGroup (map (\<lambda>t. toWire (AccessGroupGitHub n t i)) ts) a
   = Some (a\<lparr>githubID := (if ts = [] then githubID a else i),
             githubName := (if ts = [] then githubName a else n),
             githubTeams := githubTeams a @ ts\<rparr>)"
  by (induction ts arbitrary: a)
     (auto simp add: scan_Nil scan_single transformKey_def index_def)

lemma roundTrip_github:
  assumes "i \<noteq> ''''" and "n \<noteq> ''''" and "'''' \<notin> set ts"
  shows "roundTrip [(''github'', GList [GMap [(''name'', GString n), (''teams'', asStrings ts),
                                              (''identity_provider_id'', GString i)]])]
   = Some [[(''github'', GList [GMap [(''name'', GString n), (''teams'', GStrings ts),
                                      (''identity_provider_id'', GString i)]])]]"
proof (cases "ts = []")
  case True
  with assms(1,2) show ?thesis
    by (simp add: roundTrip_def Build_github TransformAccessGroupForSchema_def
          scan_Nil scan_single transformKey_def index_def postPass_def initialAccumulators_def)
next
  case False
  with assms(1,2) scan_github[OF assms(3), of n i initialAccumulators] show ?thesis
    by (simp add: roundTrip_def Build_github comp_def
          TransformAccessGroupForSchema_def postPass_def initialAccumulators_def)
qed

lemma roundTrip_external_evaluation:
  "e \<noteq> '''' \<Longrightarrow> u \<noteq> '''' \<Longrightarrow>
   roundTrip [(''external_evaluation'',
               GList [GMap [(''evaluate_url'', GString e), (''keys_url'', GString u)]])]
   = Some [[(''external_evaluation'',
             GList [GMap [(''evaluate_url'', GString e), (''keys_url'', GString u)]])]]"
  by (simp add: roundTrip_def BuildAccessGroupCondition_def buildEntry_def index_def
        TransformAccessGroupForSchema_def scan_Nil scan_single transformKey_def
        postPass_def initialAccumulators_def)

text \<open>
  The \<^verbatim>\<open>saml\<close> case of the scan reads the attribute name and value only: the identity
  provider ID that \<^verbatim>\<open>BuildAccessGroupCondition\<close> sends does not come back, unlike in
  the cases of \<^verbatim>\<open>okta\<close>, \<^verbatim>\<open>gsuite\<close>, \<^verbatim>\<open>github\<close> and \<^verbatim>\<open>azure\<close>.
\<close>

lemma roundTrip_saml_drops_identity_provider:
  "roundTrip [(''saml'', GList [GMap [(''attribute_name'', GString ''role''),
                                      (''attribute_value'', GString ''admin''),
                                      (''identity_provider_id'', GString ''idp-1'')]])]
   = Some [[(''saml'', GList [GMap [(''attribute_name'', GString ''role''),
                                    (''attribute_value'', GString ''admin'')]])]]"
  by (simp add: roundTrip_def BuildAccessGroupCondition_def buildEntry_def index_def
        TransformAccessGroupForSchema_def scan_Nil scan_single transformKey_def
        postPass_def initialAccumulators_def)

text \<open>
  Claim C1 as stated fails. An empty list and a flag that is false build no variant, so
  nothing comes back; and two \<^verbatim>\<open>okta\<close> blocks come back as one, which holds the names
  of both under the identity provider of the second.
\<close>

theorem roundTrip_loses_empty_and_merges_blocks:
  "roundTrip [(''email'', asStrings [])] = Some []
   \<and> roundTrip [(''everyone'', GBool False)] = Some []
   \<and> roundTrip [(''okta'', GList
        [GMap [(''identity_provider_id'', GString ''idp-A''), (''name'', asStrings [''eng''])],
         GMap [(''identity_provider_id'', GString ''idp-B''), (''name'', asStrings [''ops''])]])]
     = Some [[(''okta'', GList
        [GMap [(''identity_provider_id'', GString ''idp-B''),
               (''name'', GStrings [''eng'', ''ops''])]])]]"
  by (simp add: roundTrip_def BuildAccessGroupCondition_def buildEntry_def index_def
        asStrings_def genericCase_def
        TransformAccessGroupForSchema_def scan_Nil scan_single transformKey_def
        postPass_def initialAccumulators_def)

text \<open>
  Claim C1, amended. A block with a single kind comes back from
  \<^verbatim>\<open>BuildAccessGroupCondition\<close>, the API and \<^verbatim>\<open>TransformAccessGroupForSchema\<close> as
  a list of one block with the same key and the same values (lists of strings come back as
  \<^verbatim>\<open>[]string\<close>), when: the kind is \<^verbatim>\<open>everyone\<close>, \<^verbatim>\<open>any_valid_service_token\<close> or
  \<^verbatim>\<open>certificate\<close> and the value is true; the kind is \<^verbatim>\<open>common_name\<close> or
  \<^verbatim>\<open>auth_method\<close> and the string is non-empty; the kind is one of the eight list-valued
  kinds and the list is non-empty; the kind is \<^verbatim>\<open>okta\<close>, \<^verbatim>\<open>gsuite\<close> or
  \<^verbatim>\<open>azure\<close> with one sub-block whose identity provider ID and list are non-empty; the
  kind is \<^verbatim>\<open>github\<close> with one sub-block whose identity provider ID and name are
  non-empty and whose teams are non-empty strings; or the kind is
  \<^verbatim>\<open>external_evaluation\<close> with one sub-block of two non-empty URLs. In particular
  \<^verbatim>\<open>{"email": ["a@x.com","b@x.com"]}\<close> builds two email variants and comes back as
  \<^verbatim>\<open>[{"email": ["a@x.com","b@x.com"]}]\<close>. The kind \<^verbatim>\<open>saml\<close> is left out.
\<close>

theorem roundTrip_single_kind:
  "(k \<in> set flagKinds \<longrightarrow> roundTrip [(k, GBool True)] = Some [[(k, GBool True)]])
   \<and> (k \<in> {''common_name'', ''auth_method''} \<and> s \<noteq> '''' \<longrightarrow>
        roundTrip [(k, GString s)] = Some [[(k, GString s)]])
   \<and> (k \<in> set genericKinds \<and> xs \<noteq> [] \<longrightarrow>
        roundTrip [(k, asStrings xs)] = Some [[(k, GStrings xs)]])
   \<and> (i \<noteq> '''' \<and> xs \<noteq> [] \<longrightarrow>
        roundTrip [(''okta'', GList [GMap [(''identity_provider_id'', GString i),
                                           (''name'', asStrings xs)]])]
        = Some [[(''okta'', GList [GMap [(''identity_provider_id'', GString i),
                                         (''name'', GStrings xs)]])]])
   \<and> (i \<noteq> '''' \<and> xs \<noteq> [] \<longrightarrow>
        roundTrip [(''gsuite'', GList [GMap [(''identity_provider_id'', GString i),
                                             (''email'', asStrings xs)]])]
        = Some [[(''gsuite'', GList [GMap [(''identity_provider_id'', GString i),
                                           (''email'', GStrings xs)]])]])
   \<and> (i \<noteq> '''' \<and> xs \<noteq> [] \<longrightarrow>
        roundTrip [(''azure'', GList [GMap [(''identity_provider_id'', GString i),
                                            (''id'', asStrings xs)]])]
        = Some [[(''azure'', GList [GMap [(''identity_provider_id'', GString i),
                                          (''id'', GStrings xs)]])]])
   \<and> (i \<noteq> '''' \<and> n \<noteq> '''' \<and> '''' \<notin> set ts \<longrightarrow>
        roundTrip [(''github'', GList [GMap [(''name'', GString n), (''teams'', asStrings ts),
                                             (''identity_provider_id'', GString i)]])]
        = Some [[(''github'', GList [GMap [(''name'', GString n), (''teams'', GStrings ts),
                                           (''identity_provider_id'', GString i)]])]])
   \<and> (e \<noteq> '''' \<and> u \<noteq> '''' \<longrightarrow>
        roundTrip [(''external_evaluation'',
                    GList [GMap [(''evaluate_url'', GString e), (''keys_url'', GString u)]])]
        = Some [[(''external_evaluation'',
                  GList [GMap [(''evaluate_url'', GString e), (''keys_url'', GString u)]])]])"
  using roundTrip_flag[of k] roundTrip_common_name[of s] roundTrip_auth_method[of s]
    roundTrip_generic[of k xs] roundTrip_okta[of i xs] roundTrip_gsuite[of i xs]
    roundTrip_azure[of i xs] roundTrip_github[of i n ts] roundTrip_external_evaluation[of e u]
  by blast

theorem roundTrip_single_kind_witness:
  "BuildAccessGroupCondition [(''email'', asStrings [''a@x.com'', ''b@x.com''])]
     = Some [AccessGroupEmail ''a@x.com'', AccessGroupEmail ''b@x.com'']
   \<and> roundTrip [(''email'', asStrings [''a@x.com'', ''b@x.com''])]
     = Some [[(''email'', GStrings [''a@x.com'', ''b@x.com''])]]
   \<and> roundTrip [(''everyone'', GBool True)] = Some [[(''everyone'', GBool True)]]
   \<and> roundTrip [(''github'', GList [GMap [(''name'', GString ''org''), (''teams'', asStrings []),
                                           (''identity_provider_id'', GString ''idp-1'')]])]
     = Some [[(''github'', GList [GMap [(''name'', GString ''org''), (''teams'', GStrings []),
                                        (''identity_provider_id'', GString ''idp-1'')]])]]"
proof -
  have b: "BuildAccessGroupCondition [(''email'', asStrings [''a@x.com'', ''b@x.com''])]
     = Some [AccessGroupEmail ''a@x.com'', AccessGroupEmail ''b@x.com'']"
    by (simp add: BuildAccessGroupCondition_def buildEntry_def genericCase_def asStrings_def)
  have k1: "''email'' \<in> set genericKinds" by (simp add: genericKinds_def)
  have k2: "''everyone'' \<in> set flagKinds" by (simp add: flagKinds_def)
  show ?thesis
    using b k1 k2
      roundTrip_single_kind[of "''email''" s "[''a@x.com'', ''b@x.com'']" i n ts e u]
      roundTrip_single_kind[of "''everyone''" s xs i n ts e u]
      roundTrip_single_kind[of k s xs "''idp-1''" "''org''" "[]" e u]
    by simp
qed

end
